theory Spec2Isabelle
  imports Complex_Main
begin

section \<open>Random search with initial observations: skopt/dummy_opt.py\<close>

text \<open>
  A shallow embedding of \<^verbatim>\<open>dummy_minimize\<close> (src/skopt/dummy_opt.py).  The
  function is dynamically typed and branches on the run-time type of its
  arguments \<^verbatim>\<open>x0\<close> and \<^verbatim>\<open>y0\<close>, so Python values are a datatype.
  Every \<^verbatim>\<open>raise\<close> of the source, every failing index and every
  exception of the objective is a value \<open>Inl e\<close>.  The objective is a
  stateful procedure; each call of it and each call of the sampler is
  appended to an event log, so that the number and the order of the calls
  can be stated.
\<close>

subsection \<open>Python values\<close>

text \<open>
  A float is an exact real or NaN: there is no rounding, and the infinities,
  which are ordered like numbers, are left out.  NaN is a number and a
  scalar for Python and numpy, and every comparison with it is false.
\<close>

datatype pyfloat = Fin real | NaN

text \<open>\<^verbatim>\<open>a >= b\<close> on floats.\<close>

fun float_ge :: "pyfloat \<Rightarrow> pyfloat \<Rightarrow> bool" where
  "float_ge (Fin a) (Fin b) = (b \<le> a)"
| "float_ge _ _ = False"

text \<open>
  The values the model covers: \<^verbatim>\<open>None\<close>, numbers, strings, lists,
  tuples, and opaque objects that are neither iterable nor numbers.
\<close>

datatype pyval =
    PNone
  | Num pyfloat
  | Str string
  | PList "pyval list"
  | PTuple "pyval list"
  | Obj nat

text \<open>The messages of the five \<^verbatim>\<open>ValueError\<close>s the source raises, and
  the one of \<^verbatim>\<open>np.argmin\<close> on an empty sequence.\<close>

datatype message =
    Expected_x0_list              \<comment> \<open>"Expected x0 to be a list, but got ..."\<close>
  | Should_return_scalar          \<comment> \<open>"The function to be optimized should return a scalar"\<close>
  | Expected_y0_iterable_or_scalar \<comment> \<open>"Expected y0 to be an iterable or a scalar, got ..."\<close>
  | Same_length                   \<comment> \<open>"x0 and y0 should have the same length"\<close>
  | Elements_scalars              \<comment> \<open>"y0 elements should be scalars"\<close>
  | Argmin_empty                  \<comment> \<open>numpy: "attempt to get argmin of an empty sequence"\<close>

datatype exn =
    ValueError message
  | TypeError       \<comment> \<open>subscripting a value that has no items\<close>
  | IndexError      \<comment> \<open>index out of range\<close>
  | NonNumeric      \<comment> \<open>the value sequence is not a sequence of numbers, see \<open>np_array\<close>\<close>
  | Raised nat      \<comment> \<open>any other exception, of the objective or of the space\<close>

text \<open>\<^verbatim>\<open>isinstance(v, list)\<close>, \<^verbatim>\<open>isinstance(v, Iterable)\<close>,
  \<^verbatim>\<open>isinstance(v, numbers.Number)\<close> and \<^verbatim>\<open>np.isscalar(v)\<close>.\<close>

fun isinstance_list :: "pyval \<Rightarrow> bool" where
  "isinstance_list (PList _) = True"
| "isinstance_list _ = False"

fun isinstance_Iterable :: "pyval \<Rightarrow> bool" where
  "isinstance_Iterable (PList _) = True"
| "isinstance_Iterable (PTuple _) = True"
| "isinstance_Iterable (Str _) = True"
| "isinstance_Iterable _ = False"

fun isinstance_Number :: "pyval \<Rightarrow> bool" where
  "isinstance_Number (Num _) = True"
| "isinstance_Number _ = False"

fun np_isscalar :: "pyval \<Rightarrow> bool" where
  "np_isscalar (Num _) = True"
| "np_isscalar (Str _) = True"
| "np_isscalar _ = False"

text \<open>\<^verbatim>\<open>list(v)\<close> for an iterable \<open>v\<close>; a string is the list of its
  one-character strings.\<close>

fun py_list :: "pyval \<Rightarrow> pyval list" where
  "py_list (PList vs) = vs"
| "py_list (PTuple vs) = vs"
| "py_list (Str s) = map (\<lambda>c. Str [c]) s"
| "py_list _ = []"

text \<open>\<^verbatim>\<open>v[0]\<close>: an empty sequence raises \<^verbatim>\<open>IndexError\<close>, a value
  without items raises \<^verbatim>\<open>TypeError\<close>.\<close>

fun getitem0 :: "pyval \<Rightarrow> exn + pyval" where
  "getitem0 (PList []) = Inl IndexError"
| "getitem0 (PList (v # _)) = Inr v"
| "getitem0 (PTuple []) = Inl IndexError"
| "getitem0 (PTuple (v # _)) = Inr v"
| "getitem0 (Str []) = Inl IndexError"
| "getitem0 (Str (c # _)) = Inr (Str [c])"
| "getitem0 _ = Inl TypeError"

subsection \<open>The world: objective state, global generator, event log\<close>

datatype 'g event =
    Call pyval       \<comment> \<open>the objective was called at this point\<close>
  | Sample int 'g    \<comment> \<open>\<^verbatim>\<open>space.rvs\<close> was called for so many samples with this generator\<close>

record ('s, 'g) world =
  func_state :: 's               \<comment> \<open>the private state of the objective\<close>
  global_rng :: 'g               \<comment> \<open>numpy's global generator\<close>
  events :: "'g event list"

type_synonym 's objective = "pyval \<Rightarrow> 's \<Rightarrow> (exn + pyval) \<times> 's"

text \<open>
  The collaborators that are not in the source file, as parameters:
  the constructor \<^verbatim>\<open>Space(dimensions)\<close>, the sampler
  \<^verbatim>\<open>space.rvs(n_samples, random_state)\<close>, which returns a list of points and
  the generator's next state, and \<^verbatim>\<open>np.random.RandomState(seed)\<close>.
\<close>

record ('d, 'sp, 'g) collaborators =
  Space :: "'d \<Rightarrow> exn + 'sp"
  rvs :: "'sp \<Rightarrow> int \<Rightarrow> 'g \<Rightarrow> (exn + pyval list) \<times> 'g"
  RandomState :: "int \<Rightarrow> 'g"

text \<open>The argument \<^verbatim>\<open>random_state\<close>: \<^verbatim>\<open>None\<close>, an integer seed or
  a generator of the caller.\<close>

datatype 'g random_state = RS_None | RS_Int int | RS_Instance 'g

text \<open>The generator a run draws from: numpy's global one, or one of its own.\<close>

datatype 'g rng = Global | Local 'g

text \<open>\<^verbatim>\<open>sklearn.utils.check_random_state\<close>: \<^verbatim>\<open>None\<close> is the global
  generator, an integer seeds a new generator, a generator is itself.\<close>

definition check_random_state ::
  "('d, 'sp, 'g) collaborators \<Rightarrow> 'g random_state \<Rightarrow> 'g rng" where
  "check_random_state ext random_state =
     (case random_state of
        RS_None \<Rightarrow> Global
      | RS_Int seed \<Rightarrow> Local (RandomState ext seed)
      | RS_Instance g \<Rightarrow> Local g)"

text \<open>One call of the objective: its state advances and the call is logged.\<close>

definition call :: "'s objective \<Rightarrow> pyval \<Rightarrow> ('s, 'g) world \<Rightarrow> (exn + pyval) \<times> ('s, 'g) world" where
  "call func p w =
     (case func p (func_state w) of
        (r, s') \<Rightarrow> (r, w\<lparr>func_state := s', events := events w @ [Call p]\<rparr>))"

text \<open>One call of \<^verbatim>\<open>space.rvs(n_samples=n, random_state=rng)\<close>.  The
  generator's next state is kept for the global generator; a generator of
  the run's own is not read again.\<close>

definition rvs_call ::
  "('d, 'sp, 'g) collaborators \<Rightarrow> 'sp \<Rightarrow> int \<Rightarrow> 'g rng \<Rightarrow> ('s, 'g) world
     \<Rightarrow> (exn + pyval list) \<times> ('s, 'g) world" where
  "rvs_call ext space n r w =
     (case r of
        Global \<Rightarrow>
          (case rvs ext space n (global_rng w) of
             (res, g') \<Rightarrow>
               (res, w\<lparr>global_rng := g', events := events w @ [Sample n (global_rng w)]\<rparr>))
      | Local g \<Rightarrow>
          (case rvs ext space n g of
             (res, g') \<Rightarrow> (res, w\<lparr>events := events w @ [Sample n g]\<rparr>)))"

subsection \<open>The comprehensions\<close>

text \<open>\<^verbatim>\<open>[func(x) for x in xs]\<close>: the calls are made in order, and the first
  exception ends the comprehension.\<close>

fun eval_all :: "'s objective \<Rightarrow> pyval list \<Rightarrow> ('s, 'g) world
    \<Rightarrow> (exn + pyval list) \<times> ('s, 'g) world" where
  "eval_all func [] w = (Inr [], w)"
| "eval_all func (p # ps) w =
     (case call func p w of
        (Inl e, w1) \<Rightarrow> (Inl e, w1)
      | (Inr v, w1) \<Rightarrow>
          (case eval_all func ps w1 of
             (Inl e, w2) \<Rightarrow> (Inl e, w2)
           | (Inr vs, w2) \<Rightarrow> (Inr (v # vs), w2)))"

text \<open>\<^verbatim>\<open>range(a, n)\<close> for \<open>a \<ge> 0\<close>: empty when \<open>n \<le> a\<close>, also for a
  negative \<open>n\<close>.\<close>

definition py_range :: "nat \<Rightarrow> int \<Rightarrow> nat list" where
  "py_range a n = [a ..< nat n]"

text \<open>\<^verbatim>\<open>[func(X[i]) for i in idx]\<close>: an index past the end of \<open>X\<close> raises
  \<^verbatim>\<open>IndexError\<close> before the objective is called.\<close>

fun eval_at :: "'s objective \<Rightarrow> pyval list \<Rightarrow> nat list \<Rightarrow> ('s, 'g) world
    \<Rightarrow> (exn + pyval list) \<times> ('s, 'g) world" where
  "eval_at func X [] w = (Inr [], w)"
| "eval_at func X (i # idx) w =
     (if i < length X then
        (case call func (X ! i) w of
           (Inl e, w1) \<Rightarrow> (Inl e, w1)
         | (Inr v, w1) \<Rightarrow>
             (case eval_at func X idx w1 of
                (Inl e, w2) \<Rightarrow> (Inl e, w2)
              | (Inr vs, w2) \<Rightarrow> (Inr (v # vs), w2)))
      else (Inl IndexError, w))"

subsection \<open>The steps of \<^verbatim>\<open>dummy_minimize\<close>\<close>

text \<open>Lines 74 to 80: \<^verbatim>\<open>None\<close> is no point; a value whose first item is
  not a list is wrapped into a one-element list; what is then not a list
  raises.  The first item is read before any type is checked.\<close>

definition normalize_x0 :: "pyval \<Rightarrow> exn + pyval list" where
  "normalize_x0 x0 =
     (if x0 = PNone then Inr []
      else
        (case getitem0 x0 of
           Inl e \<Rightarrow> Inl e
         | Inr v \<Rightarrow>
             if \<not> isinstance_list v then Inr [x0]
             else
               (case x0 of
                  PList pts \<Rightarrow> Inr pts
                | _ \<Rightarrow> Inl (ValueError Expected_x0_list))))"

text \<open>Lines 90 to 96: \<^verbatim>\<open>y0\<close> as a list.\<close>

definition y0_list :: "pyval \<Rightarrow> exn + pyval list" where
  "y0_list y0 =
     (if isinstance_Iterable y0 then Inr (py_list y0)
      else if isinstance_Number y0 then Inr [y0]
      else Inl (ValueError Expected_y0_iterable_or_scalar))"

text \<open>Lines 82 to 103: the initial values and the number of samples still
  to draw.  Only the first branch lowers \<^verbatim>\<open>n_calls\<close>.\<close>

definition initial_values ::
  "'s objective \<Rightarrow> pyval list \<Rightarrow> pyval \<Rightarrow> int \<Rightarrow> ('s, 'g) world
     \<Rightarrow> (exn + pyval list \<times> int) \<times> ('s, 'g) world" where
  "initial_values func x0 y0 n_calls w =
     (if y0 = PNone \<and> x0 \<noteq> [] then
        (case call func (hd x0) w of
           (Inl e, w1) \<Rightarrow> (Inl e, w1)
         | (Inr init_y, w1) \<Rightarrow>
             if \<not> np_isscalar init_y then (Inl (ValueError Should_return_scalar), w1)
             else
               (case eval_all func (tl x0) w1 of
                  (Inl e, w2) \<Rightarrow> (Inl e, w2)
                | (Inr rest, w2) \<Rightarrow>
                    (Inr (init_y # rest, n_calls - int (length (init_y # rest))), w2)))
      else if x0 \<noteq> [] then
        (case y0_list y0 of
           Inl e \<Rightarrow> (Inl e, w)
         | Inr ys \<Rightarrow>
             if length x0 \<noteq> length ys then (Inl (ValueError Same_length), w)
             else if \<not> list_all np_isscalar ys then (Inl (ValueError Elements_scalars), w)
             else (Inr (ys, n_calls), w))
      else (Inr ([], n_calls), w))"

text \<open>Lines 106 to 114: the values at the sampled points.\<close>

definition fresh_values ::
  "'s objective \<Rightarrow> pyval list \<Rightarrow> pyval list \<Rightarrow> int \<Rightarrow> ('s, 'g) world
     \<Rightarrow> (exn + pyval list) \<times> ('s, 'g) world" where
  "fresh_values func X_left y0 n_calls w =
     (if y0 \<noteq> [] then eval_at func X_left (py_range 0 n_calls) w
      else
        (case X_left of
           [] \<Rightarrow> (Inl IndexError, w)
         | p # _ \<Rightarrow>
             (case call func p w of
                (Inl e, w1) \<Rightarrow> (Inl e, w1)
              | (Inr init_y, w1) \<Rightarrow>
                  if \<not> np_isscalar init_y then (Inl (ValueError Should_return_scalar), w1)
                  else
                    (case eval_at func X_left (py_range 1 n_calls) w1 of
                       (Inl e, w2) \<Rightarrow> (Inl e, w2)
                     | (Inr rest, w2) \<Rightarrow> (Inr (init_y # rest), w2)))))"

text \<open>
  \<^verbatim>\<open>np.array(y)\<close> followed by \<^verbatim>\<open>np.argmin\<close>.  For a list of numbers the
  array is the list.  What numpy does with any other list (strings, nested
  lists, \<^verbatim>\<open>None\<close>) depends on its version; the model ends the run there
  with \<open>NonNumeric\<close>.
\<close>

fun np_array :: "pyval list \<Rightarrow> pyfloat list option" where
  "np_array [] = Some []"
| "np_array (Num r # vs) = (case np_array vs of None \<Rightarrow> None | Some rs \<Rightarrow> Some (r # rs))"
| "np_array (_ # vs) = None"

text \<open>
  \<^verbatim>\<open>np.argmin\<close> on an array of floats.  It returns index 0 when the first
  entry is NaN.  Otherwise it scans from the left, with the least entry
  \<open>m\<close> seen so far and its index \<open>best\<close>; at index \<open>i\<close> it moves to an
  entry \<open>y\<close> when \<^verbatim>\<open>y >= m\<close> is false, which holds for a smaller number and
  for NaN, and it stops at a NaN.
\<close>

fun argmin_scan :: "pyfloat list \<Rightarrow> nat \<Rightarrow> nat \<Rightarrow> pyfloat \<Rightarrow> nat" where
  "argmin_scan [] i best m = best"
| "argmin_scan (y # ys) i best m =
     (if \<not> float_ge y m then
        (if y = NaN then i else argmin_scan ys (Suc i) i y)
      else argmin_scan ys (Suc i) best m)"

fun np_argmin :: "pyfloat list \<Rightarrow> exn + nat" where
  "np_argmin [] = Inl (ValueError Argmin_empty)"
| "np_argmin (y # ys) = (if y = NaN then Inr 0 else Inr (argmin_scan ys 1 0 y))"

record 'sp result =
  res_x :: pyval
  res_fun :: pyfloat
  res_func_vals :: "pyfloat list"
  res_x_iters :: "pyval list"
  res_space :: 'sp
  res_models :: "pyval list"

text \<open>Lines 116 to 129.\<close>

definition assemble :: "'sp \<Rightarrow> pyval list \<Rightarrow> pyval list \<Rightarrow> exn + 'sp result" where
  "assemble space X y =
     (case np_array y of
        None \<Rightarrow> Inl NonNumeric
      | Some ya \<Rightarrow>
          (case np_argmin ya of
             Inl e \<Rightarrow> Inl e
           | Inr best \<Rightarrow>
               if best < length X then
                 Inr \<lparr>res_x = X ! best, res_fun = ya ! best, res_func_vals = ya,
                      res_x_iters = X, res_space = space, res_models = []\<rparr>
               else Inl IndexError))"

subsection \<open>\<^verbatim>\<open>dummy_minimize\<close>\<close>

text \<open>Lines 72 to 129.  An exception of any step ends the run with the world
  as that step left it.\<close>

definition dummy_minimize ::
  "('d, 'sp, 'g) collaborators \<Rightarrow> 's objective \<Rightarrow> 'd \<Rightarrow> int \<Rightarrow> pyval \<Rightarrow> pyval
     \<Rightarrow> 'g random_state \<Rightarrow> ('s, 'g) world \<Rightarrow> (exn + 'sp result) \<times> ('s, 'g) world" where
  "dummy_minimize ext func dimensions n_calls x0 y0 random_state w =
     (let rng = check_random_state ext random_state in
      case Space ext dimensions of
        Inl e \<Rightarrow> (Inl e, w)
      | Inr space \<Rightarrow>
          (case normalize_x0 x0 of
             Inl e \<Rightarrow> (Inl e, w)
           | Inr X0 \<Rightarrow>
               (case initial_values func X0 y0 n_calls w of
                  (Inl e, w1) \<Rightarrow> (Inl e, w1)
                | (Inr (Y0, n), w1) \<Rightarrow>
                    (case rvs_call ext space n rng w1 of
                       (Inl e, w2) \<Rightarrow> (Inl e, w2)
                     | (Inr X_left, w2) \<Rightarrow>
                         (case fresh_values func X_left Y0 n w2 of
                            (Inl e, w3) \<Rightarrow> (Inl e, w3)
                          | (Inr y_left, w3) \<Rightarrow>
                              (assemble space (X0 @ X_left) (Y0 @ y_left), w3))))))"

subsection \<open>Reading the event log\<close>

text \<open>The points at which the objective was called, in order, and the calls
  of the sampler, each with the number of samples asked for and the
  generator it was given.\<close>

fun calls :: "'g event list \<Rightarrow> pyval list" where
  "calls [] = []"
| "calls (Call p # es) = p # calls es"
| "calls (Sample n g # es) = calls es"

fun samples :: "'g event list \<Rightarrow> (int \<times> 'g) list" where
  "samples [] = []"
| "samples (Call p # es) = samples es"
| "samples (Sample n g # es) = (n, g) # samples es"

text \<open>The value of \<^verbatim>\<open>n_calls\<close> at line 105: only the branch that
  evaluates the initial points has lowered it (line 88).\<close>

definition remaining_calls :: "int \<Rightarrow> pyval list \<Rightarrow> pyval \<Rightarrow> int" where
  "remaining_calls n_calls x0 y0 =
     (if y0 = PNone \<and> x0 \<noteq> [] then n_calls - int (length x0) else n_calls)"

text \<open>The generator state a draw reads.\<close>

definition drawn_from :: "'g rng \<Rightarrow> ('s, 'g) world \<Rightarrow> 'g" where
  "drawn_from r w = (case r of Global \<Rightarrow> global_rng w | Local g \<Rightarrow> g)"

subsection \<open>The error kinds of the specification\<close>

text \<open>
  The specification names two kinds of error, \<open>InvalidArgument\<close> and
  \<open>InvalidObjectiveReturn\<close>.  The source raises \<^verbatim>\<open>ValueError\<close> for both;
  they differ in the message.  A message about the shape of \<^verbatim>\<open>x0\<close> or
  \<^verbatim>\<open>y0\<close> is an invalid argument, a message about a value that is not a
  scalar is an invalid return of the objective.
\<close>

datatype error_kind = InvalidArgument | InvalidObjectiveReturn

fun kind_of :: "exn \<Rightarrow> error_kind option" where
  "kind_of (ValueError Expected_x0_list) = Some InvalidArgument"
| "kind_of (ValueError Expected_y0_iterable_or_scalar) = Some InvalidArgument"
| "kind_of (ValueError Same_length) = Some InvalidArgument"
| "kind_of (ValueError Should_return_scalar) = Some InvalidObjectiveReturn"
| "kind_of (ValueError Elements_scalars) = Some InvalidObjectiveReturn"
| "kind_of _ = None"

subsection \<open>An example instance\<close>

text \<open>
  A one-dimensional space whose sampler returns the points \<open>[g]\<close>,
  \<open>[g + 1]\<close>, ... for the generator state \<open>g\<close> and refuses a negative
  number of samples, the objective \<open>(x[0] - 3)\<^sup>2\<close>, which counts its calls
  in its state and is NaN at NaN, and an objective that returns a
  one-element list.
\<close>

fun example_points :: "nat \<Rightarrow> nat \<Rightarrow> pyval list" where
  "example_points 0 g = []"
| "example_points (Suc k) g = PList [Num (Fin (real g))] # example_points k (Suc g)"

definition example_rvs :: "unit \<Rightarrow> int \<Rightarrow> nat \<Rightarrow> (exn + pyval list) \<times> nat" where
  "example_rvs space n g =
     (if n < 0 then (Inl (Raised 0), g) else (Inr (example_points (nat n) g), g + nat n))"

definition example_collaborators :: "(unit, unit, nat) collaborators" where
  "example_collaborators =
     \<lparr>Space = (\<lambda>d. Inr ()), rvs = example_rvs, RandomState = (\<lambda>seed. nat seed)\<rparr>"

fun example_value :: "pyfloat \<Rightarrow> pyfloat" where
  "example_value (Fin r) = Fin ((r - 3) ^ 2)"
| "example_value NaN = NaN"

fun example_objective :: "nat objective" where
  "example_objective (PList [Num v]) s = (Inr (Num (example_value v)), Suc s)"
| "example_objective p s = (Inl TypeError, Suc s)"

definition vector_objective :: "nat objective" where
  "vector_objective p s = (Inr (PList [Num (Fin 1)]), Suc s)"

definition example_world :: "(nat, nat) world" where
  "example_world = \<lparr>func_state = 0, global_rng = 7, events = []\<rparr>"

section \<open>Properties of the steps\<close>

subsection \<open>The event log and the comprehensions\<close>

lemma calls_append: "calls (es @ fs) = calls es @ calls fs"
  by (induction es rule: calls.induct) simp_all

lemma samples_append: "samples (es @ fs) = samples es @ samples fs"
  by (induction es rule: samples.induct) simp_all

lemma calls_map_Call: "calls (map Call ps) = ps"
  by (induction ps) simp_all

lemma samples_map_Call: "samples (map Call ps) = []"
  by (induction ps) simp_all

lemma call_world:
  assumes "call func p w = (r, w1)"
  shows "events w1 = events w @ [Call p]" and "global_rng w1 = global_rng w"
  using assms by (auto simp: call_def split: prod.splits)

lemma eval_all_Inr:
  assumes "eval_all func ps w = (Inr vs, w')"
  shows "length vs = length ps \<and> events w' = events w @ map Call ps
         \<and> global_rng w' = global_rng w"
  using assms
proof (induction ps arbitrary: w vs)
  case Nil
  then show ?case by simp
next
  case (Cons p ps)
  from Cons.prems obtain v w1 rest where
    c: "call func p w = (Inr v, w1)" and r: "eval_all func ps w1 = (Inr rest, w')"
    and vs: "vs = v # rest"
    by (auto split: prod.splits sum.splits)
  from Cons.IH [OF r] call_world [OF c] vs show ?case by simp
qed

lemma eval_all_world:
  "eval_all func ps w = (r, w') \<Longrightarrow>
     (\<exists>m. events w' = events w @ map Call (take m ps)) \<and> global_rng w' = global_rng w"
proof (induction ps arbitrary: w r w')
  case Nil
  then show ?case by simp
next
  case (Cons p ps)
  obtain r1 w1 where c: "call func p w = (r1, w1)" by (cases "call func p w")
  show ?case
  proof (cases r1)
    case (Inl e)
    with c Cons.prems have "w' = w1" by simp
    with call_world [OF c] have "events w' = events w @ map Call (take 1 (p # ps))"
      and "global_rng w' = global_rng w" by simp_all
    then show ?thesis by blast
  next
    case (Inr v)
    obtain r2 w2 where e: "eval_all func ps w1 = (r2, w2)" by (cases "eval_all func ps w1")
    with c Inr Cons.prems have w': "w' = w2" by (auto split: sum.splits)
    from Cons.IH [OF e] obtain m where "events w2 = events w1 @ map Call (take m ps)"
      and "global_rng w2 = global_rng w1" by blast
    with w' call_world [OF c] have "events w' = events w @ map Call (take (Suc m) (p # ps))"
      and "global_rng w' = global_rng w" by simp_all
    then show ?thesis by blast
  qed
qed

lemma eval_at_Inr:
  assumes "eval_at func X idx w = (Inr vs, w')"
  shows "length vs = length idx \<and> events w' = events w @ map (\<lambda>i. Call (X ! i)) idx
         \<and> global_rng w' = global_rng w \<and> list_all (\<lambda>i. i < length X) idx"
  using assms
proof (induction idx arbitrary: w vs)
  case Nil
  then show ?case by simp
next
  case (Cons i idx)
  from Cons.prems have i: "i < length X" by (auto split: if_splits)
  with Cons.prems obtain v w1 rest where
    c: "call func (X ! i) w = (Inr v, w1)" and r: "eval_at func X idx w1 = (Inr rest, w')"
    and vs: "vs = v # rest"
    by (auto split: prod.splits sum.splits)
  from Cons.IH [OF r] call_world [OF c] vs i show ?case by simp
qed

lemma eval_at_world:
  "eval_at func X idx w = (r, w') \<Longrightarrow>
     (\<exists>ps. events w' = events w @ map Call ps) \<and> global_rng w' = global_rng w"
proof (induction idx arbitrary: w r w')
  case Nil
  then have "events w' = events w @ map Call []" and "global_rng w' = global_rng w" by simp_all
  then show ?case by blast
next
  case (Cons i idx)
  show ?case
  proof (cases "i < length X")
    case False
    with Cons.prems have "events w' = events w @ map Call []" and "global_rng w' = global_rng w"
      by simp_all
    then show ?thesis by blast
  next
    case True
    obtain r1 w1 where c: "call func (X ! i) w = (r1, w1)" by (cases "call func (X ! i) w")
    show ?thesis
    proof (cases r1)
      case (Inl e)
      with c Cons.prems True have "w' = w1" by simp
      with call_world [OF c] have "events w' = events w @ map Call [X ! i]"
        and "global_rng w' = global_rng w" by simp_all
      then show ?thesis by blast
    next
      case (Inr v)
      obtain r2 w2 where e: "eval_at func X idx w1 = (r2, w2)" by (cases "eval_at func X idx w1")
      with c Inr Cons.prems True have w': "w' = w2" by (auto split: sum.splits)
      from Cons.IH [OF e] obtain ps where "events w2 = events w1 @ map Call ps"
        and "global_rng w2 = global_rng w1" by blast
      with w' call_world [OF c] have "events w' = events w @ map Call (X ! i # ps)"
        and "global_rng w' = global_rng w" by simp_all
      then show ?thesis by blast
    qed
  qed
qed

lemma eval_at_upt:
  "m \<le> length X \<Longrightarrow> eval_at func X [a..<m] w = eval_all func (drop a (take m X)) w"
proof (induction "m - a" arbitrary: a w)
  case 0
  then show ?case by simp
next
  case (Suc k)
  then have am: "a < m" by simp
  then have upt: "[a..<m] = a # [Suc a..<m]" by (simp add: upt_conv_Cons)
  from am Suc.prems have dr: "drop a (take m X) = X ! a # drop (Suc a) (take m X)"
    by (metis Cons_nth_drop_Suc length_take min.absorb2 nth_take)
  from Suc.hyps(2) have k: "k = m - Suc a" by simp
  from am Suc.prems have "a < length X" by simp
  then show ?case
    by (simp add: upt dr Suc.hyps(1) [OF k Suc.prems] cong: prod.case_cong sum.case_cong)
qed

subsection \<open>The minimum\<close>

lemma np_array_Some: "np_array vs = Some rs \<Longrightarrow> vs = map Num rs"
  by (induction vs arbitrary: rs rule: np_array.induct) (auto split: option.splits)

text \<open>On numbers the scan moves exactly for a strictly smaller one.\<close>

lemma argmin_scan_Fin:
  "argmin_scan (Fin y # ys) i best (Fin m) =
     (if y < m then argmin_scan ys (Suc i) i (Fin y) else argmin_scan ys (Suc i) best (Fin m))"
  by auto

lemma argmin_scan_spec:
  assumes "best < i"
  shows "(argmin_scan (map Fin rs) i best (Fin m) = best \<and> (\<forall>y\<in>set rs. m \<le> y))
       \<or> (i \<le> argmin_scan (map Fin rs) i best (Fin m)
          \<and> argmin_scan (map Fin rs) i best (Fin m) < i + length rs
          \<and> rs ! (argmin_scan (map Fin rs) i best (Fin m) - i) < m
          \<and> (\<forall>y\<in>set rs. rs ! (argmin_scan (map Fin rs) i best (Fin m) - i) \<le> y)
          \<and> (\<forall>j < argmin_scan (map Fin rs) i best (Fin m) - i.
                rs ! (argmin_scan (map Fin rs) i best (Fin m) - i) < rs ! j))"
  using assms
proof (induction rs arbitrary: i best m)
  case Nil
  then show ?case by simp
next
  case (Cons y ys)
  show ?case
  proof (cases "y < m")
    case True
    let ?r = "argmin_scan (map Fin ys) (Suc i) i (Fin y)"
    have r: "argmin_scan (map Fin (y # ys)) i best (Fin m) = ?r"
      using True by (simp only: list.map argmin_scan_Fin if_True)
    from Cons.IH [of i "Suc i" y]
    consider (stay) "?r = i" "\<forall>z\<in>set ys. y \<le> z"
      | (move) "Suc i \<le> ?r" "?r < Suc i + length ys" "ys ! (?r - Suc i) < y"
          "\<forall>z\<in>set ys. ys ! (?r - Suc i) \<le> z" "\<forall>j < ?r - Suc i. ys ! (?r - Suc i) < ys ! j"
      by auto
    then show ?thesis
    proof cases
      case stay
      with True show ?thesis unfolding r by auto
    next
      case move
      from move(1) obtain d where d: "?r - i = Suc d" "?r - Suc i = d"
        by (metis Suc_diff_Suc Suc_le_lessD diff_Suc_Suc)
      have "\<forall>j < ?r - i. (y # ys) ! (?r - i) < (y # ys) ! j"
      proof (intro allI impI)
        fix j assume "j < ?r - i"
        then show "(y # ys) ! (?r - i) < (y # ys) ! j"
          using move(3,5) d by (cases j) auto
      qed
      moreover have "(y # ys) ! (?r - i) < m" using move(3) True d by simp
      moreover have "\<forall>z\<in>set (y # ys). (y # ys) ! (?r - i) \<le> z" using move(3,4) d by auto
      moreover have "i \<le> ?r" "?r < i + length (y # ys)" using move(1,2) by simp_all
      ultimately show ?thesis unfolding r by blast
    qed
  next
    case False
    let ?r = "argmin_scan (map Fin ys) (Suc i) best (Fin m)"
    have r: "argmin_scan (map Fin (y # ys)) i best (Fin m) = ?r"
      using False by (simp only: list.map argmin_scan_Fin if_False)
    from Cons.prems have "best < Suc i" by simp
    from Cons.IH [OF this, of m]
    consider (stay) "?r = best" "\<forall>z\<in>set ys. m \<le> z"
      | (move) "Suc i \<le> ?r" "?r < Suc i + length ys" "ys ! (?r - Suc i) < m"
          "\<forall>z\<in>set ys. ys ! (?r - Suc i) \<le> z" "\<forall>j < ?r - Suc i. ys ! (?r - Suc i) < ys ! j"
      by auto
    then show ?thesis
    proof cases
      case stay
      with False show ?thesis unfolding r by auto
    next
      case move
      from move(1) obtain d where d: "?r - i = Suc d" "?r - Suc i = d"
        by (metis Suc_diff_Suc Suc_le_lessD diff_Suc_Suc)
      have "\<forall>j < ?r - i. (y # ys) ! (?r - i) < (y # ys) ! j"
      proof (intro allI impI)
        fix j assume "j < ?r - i"
        then show "(y # ys) ! (?r - i) < (y # ys) ! j"
          using move(3,5) d False by (cases j) auto
      qed
      moreover have "(y # ys) ! (?r - i) < m" using move(3) d by simp
      moreover have "\<forall>z\<in>set (y # ys). (y # ys) ! (?r - i) \<le> z" using move(3,4) d False by auto
      moreover have "i \<le> ?r" "?r < i + length (y # ys)" using move(1,2) by simp_all
      ultimately show ?thesis unfolding r by blast
    qed
  qed
qed

lemma np_argmin_spec:
  assumes "np_argmin (map Fin rs) = Inr best"
  shows "best < length rs \<and> (\<forall>y\<in>set rs. rs ! best \<le> y) \<and> (\<forall>j<best. rs ! best < rs ! j)"
proof (cases rs)
  case Nil
  with assms show ?thesis by simp
next
  case (Cons y rest)
  with assms have b: "best = argmin_scan (map Fin rest) 1 0 (Fin y)" by simp
  from argmin_scan_spec [of 0 1 rest y]
  consider (stay) "best = 0" "\<forall>z\<in>set rest. y \<le> z"
    | (move) "1 \<le> best" "best < 1 + length rest" "rest ! (best - 1) < y"
        "\<forall>z\<in>set rest. rest ! (best - 1) \<le> z" "\<forall>j < best - 1. rest ! (best - 1) < rest ! j"
    unfolding b by auto
  then show ?thesis
  proof cases
    case stay
    with Cons show ?thesis by auto
  next
    case move
    from move(1) obtain d where d: "best = Suc d" by (cases best) auto
    have "\<forall>j<best. rs ! best < rs ! j"
    proof (intro allI impI)
      fix j assume "j < best"
      then show "rs ! best < rs ! j" using move(3,5) d Cons by (cases j) auto
    qed
    moreover have "\<forall>z\<in>set rs. rs ! best \<le> z" using move(3,4) d Cons by auto
    moreover have "best < length rs" using move(2) Cons by simp
    ultimately show ?thesis by blast
  qed
qed

lemma np_argmin_Min:
  assumes "np_argmin (map Fin rs) = Inr best"
  shows "rs ! best = Min (set rs)"
proof -
  from np_argmin_spec [OF assms] have "best < length rs" "\<forall>y\<in>set rs. rs ! best \<le> y" by simp_all
  then show ?thesis by (intro Min_eqI [symmetric]) auto
qed

text \<open>The scan stops at the first NaN.\<close>

lemma argmin_scan_NaN:
  "argmin_scan (map Fin rs @ NaN # zs) i best (Fin m) = i + length rs"
proof (induction rs arbitrary: i best m)
  case Nil
  show ?case by simp
next
  case (Cons y ys)
  show ?case
    by (simp only: list.map append_Cons argmin_scan_Fin Cons.IH) simp
qed

lemma np_argmin_NaN: "np_argmin (map Fin rs @ NaN # zs) = Inr (length rs)"
proof (cases rs)
  case Nil
  then show ?thesis by simp
next
  case (Cons y ys)
  then show ?thesis by (simp add: argmin_scan_NaN)
qed

lemma assemble_Inr:
  assumes "assemble space X y = Inr res"
  shows "\<exists>best. y = map Num (res_func_vals res) \<and> np_argmin (res_func_vals res) = Inr best
           \<and> best < length X \<and> res_x res = X ! best \<and> res_fun res = res_func_vals res ! best
           \<and> res_x_iters res = X \<and> res_space res = space \<and> res_models res = []"
  using assms unfolding assemble_def
  by (auto split: option.splits sum.splits if_splits dest: np_array_Some)

subsection \<open>Initial values, the draw and the fresh values\<close>

lemma initial_values_none: "initial_values func [] y0 N w = (Inr ([], N), w)"
  by (simp add: initial_values_def)

lemma initial_values_computed:
  assumes "initial_values func X0 PNone N w = (Inr (Y0, n), w1)" and "X0 \<noteq> []"
  shows "eval_all func X0 w = (Inr Y0, w1) \<and> np_isscalar (hd Y0)
         \<and> n = N - int (length X0) \<and> length Y0 = length X0"
proof -
  from assms(2) obtain p ps where X0: "X0 = p # ps" by (cases X0) auto
  from assms(1) obtain init_y w0 rest where
    c: "call func p w = (Inr init_y, w0)" and s: "np_isscalar init_y"
    and r: "eval_all func ps w0 = (Inr rest, w1)" and Y0: "Y0 = init_y # rest"
    and n: "n = N - int (length (init_y # rest))"
    unfolding initial_values_def X0
    by (auto split: prod.splits sum.splits if_splits)
  from eval_all_Inr [OF r] have "length rest = length ps" by simp
  with c s r Y0 n X0 show ?thesis by simp
qed


lemma initial_values_supplied:
  assumes "initial_values func X0 y0 N w = (Inr (Y0, n), w1)" and "X0 \<noteq> []" and "y0 \<noteq> PNone"
  shows "y0_list y0 = Inr Y0 \<and> length Y0 = length X0 \<and> list_all np_isscalar Y0
         \<and> n = N \<and> w1 = w"
  using assms unfolding initial_values_def
  by (auto split: sum.splits if_splits)

lemma initial_values_remaining:
  assumes "initial_values func X0 y0 N w = (Inr (Y0, n), w1)"
  shows "n = remaining_calls N X0 y0"
proof (cases "y0 = PNone \<and> X0 \<noteq> []")
  case True
  with assms initial_values_computed [of func X0 N w Y0 n w1] show ?thesis
    by (simp add: remaining_calls_def)
next
  case False
  with assms show ?thesis
    unfolding initial_values_def remaining_calls_def
    by (auto split: if_splits sum.splits)
qed

lemma initial_values_world:
  assumes "initial_values func X0 y0 N w = (r, w1)"
  shows "(\<exists>ps. events w1 = events w @ map Call ps) \<and> global_rng w1 = global_rng w"
proof -
  have triv: "(\<exists>ps. events w = events w @ map Call ps)"
    by (rule exI [of _ "[]"]) simp
  show ?thesis
  proof (cases "y0 = PNone \<and> X0 \<noteq> []")
    case False
    with assms have "w1 = w"
      unfolding initial_values_def by (auto split: if_splits sum.splits)
    with triv show ?thesis by simp
  next
    case True
    then obtain p ps where X0: "X0 = p # ps" by (cases X0) auto
    obtain r0 w0 where c: "call func p w = (r0, w0)" by (cases "call func p w")
    note cw = call_world [OF c]
    have one: "events w0 = events w @ map Call [p]" using cw by simp
    show ?thesis
    proof (cases "\<exists>v. r0 = Inr v \<and> np_isscalar v")
      case False
      with assms True c have "w1 = w0"
        unfolding initial_values_def X0 by (cases r0) (auto split: if_splits)
      with one cw(2) show ?thesis by blast
    next
      case s: True
      then obtain v where v: "r0 = Inr v" "np_isscalar v" by blast
      obtain r2 w2 where e: "eval_all func ps w0 = (r2, w2)" by (cases "eval_all func ps w0")
      with assms True c v have "w1 = w2"
        unfolding initial_values_def X0 by (cases r2) auto
      moreover from eval_all_world [OF e] obtain m where
        "events w2 = events w0 @ map Call (take m ps)" "global_rng w2 = global_rng w0" by blast
      ultimately have "events w1 = events w @ map Call (p # take m ps)"
        "global_rng w1 = global_rng w" using cw by simp_all
      then show ?thesis by blast
    qed
  qed
qed

lemma upt_all_less: "list_all (\<lambda>i. i < k) [a..<m] \<Longrightarrow> a < m \<Longrightarrow> m \<le> k"
  by (cases m) (auto simp: list_all_iff)

lemma fresh_values_after_initial:
  assumes "fresh_values func X_left Y0 n w = (Inr y_left, w')" and "Y0 \<noteq> []"
  shows "nat n \<le> length X_left \<and> eval_all func (take (nat n) X_left) w = (Inr y_left, w')
         \<and> length y_left = nat n"
proof -
  from assms have e: "eval_at func X_left [0..<nat n] w = (Inr y_left, w')"
    by (simp add: fresh_values_def py_range_def)
  from eval_at_Inr [OF e] have len: "length y_left = nat n"
    and all: "list_all (\<lambda>i. i < length X_left) [0..<nat n]" by simp_all
  have le: "nat n \<le> length X_left"
  proof (cases "0 < nat n")
    case True
    from upt_all_less [OF all True] show ?thesis .
  next
    case False
    then show ?thesis by simp
  qed
  from eval_at_upt [OF le, of func 0 w] e len le show ?thesis by simp
qed

lemma fresh_values_no_initial:
  assumes "fresh_values func X_left [] n w = (Inr y_left, w')"
  shows "max 1 (nat n) \<le> length X_left
         \<and> eval_all func (take (max 1 (nat n)) X_left) w = (Inr y_left, w')
         \<and> np_isscalar (hd y_left) \<and> length y_left = max 1 (nat n)"
proof -
  let ?m = "max 1 (nat n)"
  from assms obtain p ps where X: "X_left = p # ps"
    by (cases X_left) (auto simp: fresh_values_def)
  from assms obtain init_y w1 rest where
    c: "call func p w = (Inr init_y, w1)" and s: "np_isscalar init_y"
    and r: "eval_at func X_left (py_range 1 n) w1 = (Inr rest, w')" and y: "y_left = init_y # rest"
    unfolding fresh_values_def X
    by (auto split: prod.splits sum.splits if_splits)
  have rng: "py_range 1 n = [1..<?m]" by (simp add: py_range_def max_def)
  from r have r': "eval_at func X_left [1..<?m] w1 = (Inr rest, w')" unfolding rng .
  from eval_at_Inr [OF r'] have len: "length rest = ?m - 1"
    and all: "list_all (\<lambda>i. i < length X_left) [1..<?m]" by simp_all
  have le: "?m \<le> length X_left"
  proof (cases "1 < ?m")
    case True
    from upt_all_less [OF all True] show ?thesis .
  next
    case False
    then have "?m = 1" by simp
    then show ?thesis using X by simp
  qed
  from eval_at_upt [OF le, of func 1 w1] r'
  have d: "eval_all func (drop 1 (take ?m X_left)) w1 = (Inr rest, w')" by simp
  obtain k where k: "?m = Suc k" by (cases ?m) auto
  then have t: "take ?m X_left = p # drop 1 (take ?m X_left)" by (simp add: X)
  have "eval_all func (p # drop 1 (take ?m X_left)) w = (Inr y_left, w')"
    using c d y by simp
  with t have "eval_all func (take ?m X_left) w = (Inr y_left, w')" by simp
  with le s y len show ?thesis by simp
qed

lemma fresh_values_world:
  assumes "fresh_values func X_left Y0 n w = (r, w')"
  shows "(\<exists>ps. events w' = events w @ map Call ps) \<and> global_rng w' = global_rng w"
proof (cases "Y0 \<noteq> []")
  case True
  with assms have "eval_at func X_left (py_range 0 n) w = (r, w')" by (simp add: fresh_values_def)
  from eval_at_world [OF this] show ?thesis .
next
  case False
  then have Y0: "Y0 = []" by simp
  show ?thesis
  proof (cases X_left)
    case Nil
    with assms Y0 have "w' = w" by (simp add: fresh_values_def)
    moreover have "events w = events w @ map Call []" by simp
    ultimately show ?thesis by blast
  next
    case (Cons p ps)
    obtain r0 w0 where c: "call func p w = (r0, w0)" by (cases "call func p w")
    note cw = call_world [OF c]
    have one: "events w0 = events w @ map Call [p]" using cw by simp
    show ?thesis
    proof (cases "\<exists>v. r0 = Inr v \<and> np_isscalar v")
      case False
      with assms Y0 Cons c have "w' = w0"
        unfolding fresh_values_def by (cases r0) (auto split: if_splits)
      with one cw(2) show ?thesis by blast
    next
      case True
      then obtain v where v: "r0 = Inr v" "np_isscalar v" by blast
      obtain r2 w2 where e: "eval_at func X_left (py_range 1 n) w0 = (r2, w2)"
        by (cases "eval_at func X_left (py_range 1 n) w0")
      with assms Y0 Cons c v have "w' = w2"
        unfolding fresh_values_def by (cases r2) auto
      moreover from eval_at_world [OF e] obtain qs where
        "events w2 = events w0 @ map Call qs" "global_rng w2 = global_rng w0" by blast
      ultimately have "events w' = events w @ map Call (p # qs)"
        "global_rng w' = global_rng w" using cw by simp_all
      then show ?thesis by blast
    qed
  qed
qed

lemma rvs_call_events:
  assumes "rvs_call ext space n r w = (res, w')"
  shows "events w' = events w @ [Sample n (drawn_from r w)]"
  using assms unfolding rvs_call_def drawn_from_def by (auto split: rng.splits prod.splits)

lemma rvs_call_Inr:
  assumes "rvs_call ext space n r w = (Inr xs, w')"
  shows "\<exists>g'. rvs ext space n (drawn_from r w) = (Inr xs, g')"
  using assms unfolding rvs_call_def drawn_from_def by (auto split: rng.splits prod.splits)

subsection \<open>The run as a whole\<close>

lemma dummy_minimize_unfold:
  "dummy_minimize ext func d N x0 y0 rs w =
     (case Space ext d of
        Inl e \<Rightarrow> (Inl e, w)
      | Inr space \<Rightarrow>
          (case normalize_x0 x0 of
             Inl e \<Rightarrow> (Inl e, w)
           | Inr X0 \<Rightarrow>
               (case initial_values func X0 y0 N w of
                  (Inl e, w1) \<Rightarrow> (Inl e, w1)
                | (Inr (Y0, n), w1) \<Rightarrow>
                    (case rvs_call ext space n (check_random_state ext rs) w1 of
                       (Inl e, w2) \<Rightarrow> (Inl e, w2)
                     | (Inr X_left, w2) \<Rightarrow>
                         (case fresh_values func X_left Y0 n w2 of
                            (Inl e, w3) \<Rightarrow> (Inl e, w3)
                          | (Inr y_left, w3) \<Rightarrow>
                              (assemble space (X0 @ X_left) (Y0 @ y_left), w3))))))"
  by (simp add: dummy_minimize_def Let_def)

lemma dummy_minimize_Inr:
  assumes "dummy_minimize ext func d N x0 y0 rs w = (Inr res, w')"
  shows "\<exists>space X0 Y0 n w1 X_left w2 y_left.
           Space ext d = Inr space \<and> normalize_x0 x0 = Inr X0
         \<and> initial_values func X0 y0 N w = (Inr (Y0, n), w1)
         \<and> rvs_call ext space n (check_random_state ext rs) w1 = (Inr X_left, w2)
         \<and> fresh_values func X_left Y0 n w2 = (Inr y_left, w')
         \<and> assemble space (X0 @ X_left) (Y0 @ y_left) = Inr res"
  using assms unfolding dummy_minimize_unfold
  by (auto split: sum.splits prod.splits)

lemma dummy_minimize_initial_error:
  assumes "Space ext d = Inr space" and "normalize_x0 x0 = Inr X0"
    and "initial_values func X0 y0 N w = (Inl e, w1)"
  shows "dummy_minimize ext func d N x0 y0 rs w = (Inl e, w1)"
  using assms unfolding dummy_minimize_unfold by simp

text \<open>Once the initial values are there, the run is the draw, the fresh
  values and the assembly.\<close>

lemma dummy_minimize_after_initial:
  assumes "Space ext d = Inr space" and "normalize_x0 x0 = Inr X0"
    and "initial_values func X0 y0 N w = (Inr (Y0, n), w1)"
  shows "dummy_minimize ext func d N x0 y0 rs w =
     (case rvs_call ext space n (check_random_state ext rs) w1 of
        (Inl e, w2) \<Rightarrow> (Inl e, w2)
      | (Inr X_left, w2) \<Rightarrow>
          (case fresh_values func X_left Y0 n w2 of
             (Inl e, w3) \<Rightarrow> (Inl e, w3)
           | (Inr y_left, w3) \<Rightarrow> (assemble space (X0 @ X_left) (Y0 @ y_left), w3)))"
  using assms unfolding dummy_minimize_unfold by simp

lemma dummy_minimize_samples:
  assumes "Space ext d = Inr space" and "normalize_x0 x0 = Inr X0"
    and "initial_values func X0 y0 N w = (Inr (Y0, n), w1)"
  shows "samples (events (snd (dummy_minimize ext func d N x0 y0 rs w))) =
           samples (events w) @ [(n, drawn_from (check_random_state ext rs) w)]"
proof -
  let ?r = "check_random_state ext rs"
  from initial_values_world [OF assms(3)] obtain ps where
    w1: "events w1 = events w @ map Call ps" "global_rng w1 = global_rng w" by blast
  have d: "drawn_from ?r w1 = drawn_from ?r w" using w1(2) by (simp add: drawn_from_def split: rng.splits)
  obtain r2 w2 where s: "rvs_call ext space n ?r w1 = (r2, w2)"
    by (cases "rvs_call ext space n ?r w1")
  from rvs_call_events [OF s] w1 d
  have w2: "samples (events w2) = samples (events w) @ [(n, drawn_from ?r w)]"
    by (simp add: samples_append samples_map_Call)
  show ?thesis
  proof (cases r2)
    case (Inl e)
    with s w2 show ?thesis by (simp add: dummy_minimize_after_initial [OF assms])
  next
    case (Inr X_left)
    obtain r3 w3 where f: "fresh_values func X_left Y0 n w2 = (r3, w3)"
      by (cases "fresh_values func X_left Y0 n w2")
    from fresh_values_world [OF f] obtain qs where "events w3 = events w2 @ map Call qs" by blast
    with w2 have "samples (events w3) = samples (events w) @ [(n, drawn_from ?r w)]"
      by (simp add: samples_append samples_map_Call)
    with s Inr f show ?thesis
      by (cases r3) (simp_all add: dummy_minimize_after_initial [OF assms])
  qed
qed

subsection \<open>The global generator and a seeded run\<close>

lemma call_rng:
  "call func p (w\<lparr>global_rng := g\<rparr>) =
     (case call func p w of (r, w') \<Rightarrow> (r, w'\<lparr>global_rng := g\<rparr>))"
  by (simp add: call_def split: prod.splits)

lemma eval_all_rng:
  "eval_all func ps (w\<lparr>global_rng := g\<rparr>) =
     (case eval_all func ps w of (r, w') \<Rightarrow> (r, w'\<lparr>global_rng := g\<rparr>))"
proof (induction ps arbitrary: w)
  case Nil
  show ?case by simp
next
  case (Cons p ps)
  show ?case
    by (simp add: call_rng Cons.IH split: prod.splits sum.splits)
qed

lemma eval_at_rng:
  "eval_at func X idx (w\<lparr>global_rng := g\<rparr>) =
     (case eval_at func X idx w of (r, w') \<Rightarrow> (r, w'\<lparr>global_rng := g\<rparr>))"
proof (induction idx arbitrary: w)
  case Nil
  show ?case by simp
next
  case (Cons i idx)
  show ?case
    by (simp add: call_rng Cons.IH split: prod.splits sum.splits)
qed

lemma initial_values_rng:
  "initial_values func X0 y0 N (w\<lparr>global_rng := g\<rparr>) =
     (case initial_values func X0 y0 N w of (r, w') \<Rightarrow> (r, w'\<lparr>global_rng := g\<rparr>))"
  unfolding initial_values_def
  by (simp add: call_rng eval_all_rng split: prod.splits sum.splits)

lemma fresh_values_rng:
  "fresh_values func X_left Y0 n (w\<lparr>global_rng := g\<rparr>) =
     (case fresh_values func X_left Y0 n w of (r, w') \<Rightarrow> (r, w'\<lparr>global_rng := g\<rparr>))"
  unfolding fresh_values_def
  by (simp add: call_rng eval_at_rng split: prod.splits sum.splits list.splits)

lemma rvs_call_Local_rng:
  "rvs_call ext space n (Local g0) (w\<lparr>global_rng := g\<rparr>) =
     (case rvs_call ext space n (Local g0) w of (r, w') \<Rightarrow> (r, w'\<lparr>global_rng := g\<rparr>))"
  by (simp add: rvs_call_def split: prod.splits)

lemma dummy_minimize_seeded_rng:
  "dummy_minimize ext func d N x0 y0 (RS_Int seed) (w\<lparr>global_rng := g\<rparr>) =
     (case dummy_minimize ext func d N x0 y0 (RS_Int seed) w of
        (r, w') \<Rightarrow> (r, w'\<lparr>global_rng := g\<rparr>))"
  unfolding dummy_minimize_unfold
  by (simp add: check_random_state_def initial_values_rng rvs_call_Local_rng fresh_values_rng
        split: prod.splits sum.splits)

subsection \<open>Runs of the example instance\<close>

lemma length_example_points: "length (example_points k g) = k"
  by (induction k arbitrary: g) simp_all

lemma example_rvs_exact:
  "rvs example_collaborators sp n g = (Inr xs, g') \<Longrightarrow> length xs = nat n"
  by (auto simp: example_collaborators_def example_rvs_def length_example_points split: if_splits)

lemmas run_simps =
  dummy_minimize_unfold example_collaborators_def example_rvs_def example_world_def
  normalize_x0_def initial_values_def fresh_values_def y0_list_def rvs_call_def
  check_random_state_def call_def py_range_def assemble_def

lemma run_supplied:
  "dummy_minimize example_collaborators example_objective () 5
     (PList [PList [Num (Fin 1)], PList [Num (Fin 9)]]) (PList [Num (Fin 4), Num (Fin 36)]) (RS_Int 0) example_world
   = (Inr \<lparr>res_x = PList [Num (Fin 3)], res_fun = Fin 0,
         res_func_vals = [Fin 4, Fin 36, Fin 9, Fin 4, Fin 1, Fin 0, Fin 1],
         res_x_iters =
           [PList [Num (Fin 1)], PList [Num (Fin 9)], PList [Num (Fin 0)], PList [Num (Fin 1)],
            PList [Num (Fin 2)], PList [Num (Fin 3)], PList [Num (Fin 4)]],
         res_space = (), res_models = []\<rparr>,
  \<lparr>func_state = 5, global_rng = 7,
     events =
       [Sample 5 0, Call (PList [Num (Fin 0)]), Call (PList [Num (Fin 1)]),
        Call (PList [Num (Fin 2)]), Call (PList [Num (Fin 3)]), Call (PList [Num (Fin 4)])]\<rparr>)"
  by (simp add: run_simps eval_nat_numeral upt_rec)

lemma run_computed:
  "dummy_minimize example_collaborators example_objective () 5
     (PList [PList [Num (Fin 1)], PList [Num (Fin 9)]]) PNone (RS_Int 0) example_world
   = (Inr \<lparr>res_x = PList [Num (Fin 2)], res_fun = Fin 1, res_func_vals = [Fin 4, Fin 36, Fin 9, Fin 4, Fin 1],
         res_x_iters =
           [PList [Num (Fin 1)], PList [Num (Fin 9)], PList [Num (Fin 0)], PList [Num (Fin 1)], PList [Num (Fin 2)]],
         res_space = (), res_models = []\<rparr>,
      \<lparr>func_state = 5, global_rng = 7,
         events =
           [Call (PList [Num (Fin 1)]), Call (PList [Num (Fin 9)]), Sample 3 0,
            Call (PList [Num (Fin 0)]), Call (PList [Num (Fin 1)]), Call (PList [Num (Fin 2)])]\<rparr>)"
  by (simp add: run_simps eval_nat_numeral upt_rec)

lemma run_ties:
  "dummy_minimize example_collaborators example_objective () 4
     (PList [PList [Num (Fin 2)], PList [Num (Fin 4)]]) PNone (RS_Int 0) example_world
   = (Inr \<lparr>res_x = PList [Num (Fin 2)], res_fun = Fin 1, res_func_vals = [Fin 1, Fin 1, Fin 9, Fin 4],
         res_x_iters = [PList [Num (Fin 2)], PList [Num (Fin 4)], PList [Num (Fin 0)], PList [Num (Fin 1)]],
         res_space = (), res_models = []\<rparr>,
      \<lparr>func_state = 4, global_rng = 7,
         events =
           [Call (PList [Num (Fin 2)]), Call (PList [Num (Fin 4)]), Sample 2 0,
            Call (PList [Num (Fin 0)]), Call (PList [Num (Fin 1)])]\<rparr>)"
  by (simp add: run_simps eval_nat_numeral upt_rec)

lemma run_nan:
  "dummy_minimize example_collaborators example_objective () 2
     (PList [PList [Num (Fin 1)], PList [Num (Fin 2)], PList [Num (Fin 3)]])
     (PList [Num (Fin 1), Num NaN, Num (Fin (1 / 2))]) (RS_Int 0) example_world
   = (Inr \<lparr>res_x = PList [Num (Fin 2)], res_fun = NaN,
         res_func_vals = [Fin 1, NaN, Fin (1 / 2), Fin 9, Fin 4],
         res_x_iters =
           [PList [Num (Fin 1)], PList [Num (Fin 2)], PList [Num (Fin 3)],
            PList [Num (Fin 0)], PList [Num (Fin 1)]],
         res_space = (), res_models = []\<rparr>,
      \<lparr>func_state = 2, global_rng = 7,
         events = [Sample 2 0, Call (PList [Num (Fin 0)]), Call (PList [Num (Fin 1)])]\<rparr>)"
  by (simp add: run_simps eval_nat_numeral upt_rec)

lemma run_plain:
  "dummy_minimize example_collaborators example_objective () 3 PNone PNone (RS_Int 0)
     example_world
   = (Inr \<lparr>res_x = PList [Num (Fin 2)], res_fun = Fin 1, res_func_vals = [Fin 9, Fin 4, Fin 1],
         res_x_iters = [PList [Num (Fin 0)], PList [Num (Fin 1)], PList [Num (Fin 2)]],
         res_space = (), res_models = []\<rparr>,
      \<lparr>func_state = 3, global_rng = 7,
         events =
           [Sample 3 0, Call (PList [Num (Fin 0)]), Call (PList [Num (Fin 1)]), Call (PList [Num (Fin 2)])]\<rparr>)"
  by (simp add: run_simps eval_nat_numeral upt_rec)


section \<open>The claims\<close>

text \<open>
  C1, as amended.  Let a run with call budget \<open>N\<close> complete, with \<open>k \<ge> 0\<close>
  initial points \<open>X0\<close> and a sampler that returns as many points as it is
  asked for.  Then \<^verbatim>\<open>x_iters\<close> is \<open>X0\<close> followed by the sampled points,
  and \<^verbatim>\<open>func_vals\<close> is the initial values (the supplied ones, or the
  values of the objective at \<open>X0\<close> in order) followed by the values of the
  objective at the sampled points in order.  When the initial values are
  computed and \<open>k \<le> N\<close>, both sequences have length \<open>N\<close>; when \<open>k \<ge> 1\<close>
  values are supplied, the budget is not lowered and both have length
  \<open>k + N\<close>.
\<close>

theorem trace_layout:
  assumes run: "dummy_minimize ext func d N x0 y0 rs w = (Inr res, w')"
    and norm: "normalize_x0 x0 = Inr X0"
    and exact: "\<And>sp n g xs g'. rvs ext sp n g = (Inr xs, g') \<Longrightarrow> length xs = nat n"
  shows "\<exists>space Y0 w1 X_left w2 y_left.
           Space ext d = Inr space
         \<and> (if X0 = [] then Y0 = [] \<and> w1 = w
            else if y0 = PNone then eval_all func X0 w = (Inr Y0, w1)
            else y0_list y0 = Inr Y0 \<and> w1 = w)
         \<and> rvs_call ext space (remaining_calls N X0 y0) (check_random_state ext rs) w1
              = (Inr X_left, w2)
         \<and> eval_all func X_left w2 = (Inr y_left, w')
         \<and> res_x_iters res = X0 @ X_left
         \<and> map Num (res_func_vals res) = Y0 @ y_left
         \<and> length Y0 = length X0
         \<and> length X_left = nat (remaining_calls N X0 y0)
         \<and> length y_left = nat (remaining_calls N X0 y0)
         \<and> ((y0 = PNone \<or> X0 = []) \<and> int (length X0) \<le> N \<longrightarrow>
              int (length (res_func_vals res)) = N \<and> int (length (res_x_iters res)) = N)
         \<and> (y0 \<noteq> PNone \<and> X0 \<noteq> [] \<and> 0 \<le> N \<longrightarrow>
              int (length (res_func_vals res)) = int (length X0) + N
            \<and> int (length (res_x_iters res)) = int (length X0) + N)"
proof -
  from dummy_minimize_Inr [OF run] norm obtain space Y0 n w1 X_left w2 y_left where
    sp: "Space ext d = Inr space"
    and iv: "initial_values func X0 y0 N w = (Inr (Y0, n), w1)"
    and dr: "rvs_call ext space n (check_random_state ext rs) w1 = (Inr X_left, w2)"
    and fr: "fresh_values func X_left Y0 n w2 = (Inr y_left, w')"
    and as: "assemble space (X0 @ X_left) (Y0 @ y_left) = Inr res"
    by auto
  note n = initial_values_remaining [OF iv]
  have init: "(if X0 = [] then Y0 = [] \<and> w1 = w
               else if y0 = PNone then eval_all func X0 w = (Inr Y0, w1)
               else y0_list y0 = Inr Y0 \<and> w1 = w) \<and> length Y0 = length X0"
  proof (cases "X0 = []")
    case True
    with iv show ?thesis by (simp add: initial_values_none)
  next
    case k: False
    show ?thesis
    proof (cases "y0 = PNone")
      case True
      with initial_values_computed [of func X0 N w Y0 n w1] iv k show ?thesis by simp
    next
      case False
      with initial_values_supplied [OF iv k] k show ?thesis by simp
    qed
  qed
  from rvs_call_Inr [OF dr] obtain g' where
    "rvs ext space n (drawn_from (check_random_state ext rs) w1) = (Inr X_left, g')" by blast
  from exact [OF this] have lenX: "length X_left = nat n" .
  have fresh: "eval_all func X_left w2 = (Inr y_left, w') \<and> length y_left = nat n
               \<and> (X0 = [] \<longrightarrow> 1 \<le> n)"
  proof (cases "X0 = []")
    case True
    with init have "Y0 = []" by simp
    from fresh_values_no_initial [OF fr [unfolded this]] lenX
    have m: "max 1 (nat n) = nat n"
      and "eval_all func (take (max 1 (nat n)) X_left) w2 = (Inr y_left, w')"
      and "length y_left = max 1 (nat n)" by simp_all
    then have "eval_all func X_left w2 = (Inr y_left, w')" and "length y_left = nat n"
      and "1 \<le> n" using lenX by (simp_all add: max_def split: if_splits)
    then show ?thesis by simp
  next
    case False
    with init have "Y0 \<noteq> []" by auto
    from fresh_values_after_initial [OF fr this] lenX False show ?thesis by simp
  qed
  then have ev: "eval_all func X_left w2 = (Inr y_left, w')" and leny: "length y_left = nat n"
    and pos: "X0 = [] \<longrightarrow> 1 \<le> n" by simp_all
  from assemble_Inr [OF as] have X: "res_x_iters res = X0 @ X_left"
    and y: "map Num (res_func_vals res) = Y0 @ y_left" by auto
  from y have "length (res_func_vals res) = length (Y0 @ y_left)"
    by (metis length_map)
  with init leny have lv: "length (res_func_vals res) = length X0 + nat n" by simp
  from X lenX have lx: "length (res_x_iters res) = length X0 + nat n" by simp
  have l1: "(y0 = PNone \<or> X0 = []) \<and> int (length X0) \<le> N \<longrightarrow>
      int (length (res_func_vals res)) = N \<and> int (length (res_x_iters res)) = N"
    using lv lx n pos by (auto simp: remaining_calls_def)
  have l2: "y0 \<noteq> PNone \<and> X0 \<noteq> [] \<and> 0 \<le> N \<longrightarrow>
      int (length (res_func_vals res)) = int (length X0) + N
    \<and> int (length (res_x_iters res)) = int (length X0) + N"
    using lv lx n by (simp add: remaining_calls_def)
  from sp init dr ev X y lenX leny l1 l2 show ?thesis unfolding n by blast
qed

text \<open>The run with two initial points, computed values and budget 5 has
  five observations, the two initial ones first.\<close>

theorem trace_layout_witness:
  "\<exists>res w'. dummy_minimize example_collaborators example_objective () 5
       (PList [PList [Num (Fin 1)], PList [Num (Fin 9)]]) PNone (RS_Int 0) example_world = (Inr res, w')
     \<and> normalize_x0 (PList [PList [Num (Fin 1)], PList [Num (Fin 9)]]) = Inr [PList [Num (Fin 1)], PList [Num (Fin 9)]]
     \<and> int (length (res_func_vals res)) = 5 \<and> int (length (res_x_iters res)) = 5
     \<and> take 2 (res_func_vals res) = [Fin 4, Fin 36]
     \<and> take 2 (res_x_iters res) = [PList [Num (Fin 1)], PList [Num (Fin 9)]]"
proof -
  have norm: "normalize_x0 (PList [PList [Num (Fin 1)], PList [Num (Fin 9)]])
                = Inr [PList [Num (Fin 1)], PList [Num (Fin 9)]]"
    by (simp add: normalize_x0_def)
  from trace_layout [OF run_computed norm example_rvs_exact]
  have "int (length (res_func_vals (projr (fst (dummy_minimize example_collaborators
          example_objective () 5 (PList [PList [Num (Fin 1)], PList [Num (Fin 9)]]) PNone (RS_Int 0)
          example_world))))) = 5"
    by (auto simp: run_computed)
  with run_computed norm show ?thesis by simp
qed

text \<open>C1 as stated fails: with the two initial values supplied and budget 5,
  the run returns seven observations.\<close>

theorem trace_length_counterexample:
  "\<exists>res w'. dummy_minimize example_collaborators example_objective () 5
       (PList [PList [Num (Fin 1)], PList [Num (Fin 9)]]) (PList [Num (Fin 4), Num (Fin 36)]) (RS_Int 0) example_world
         = (Inr res, w')
     \<and> length (res_func_vals res) = 7 \<and> length (res_x_iters res) = 7
     \<and> length (res_func_vals res) \<noteq> 5"
  using run_supplied by simp

text \<open>
  C2, as amended.  When the caller supplies \<open>k \<ge> 1\<close> initial points and
  their values and the run completes, the objective is called at the first
  \<open>N\<close> sampled points, in order, and nowhere else: never at an initial
  point, and \<open>N\<close> times, not \<open>N - k\<close> times.
\<close>

theorem supplied_values_call_count:
  assumes run: "dummy_minimize ext func d N x0 y0 rs w = (Inr res, w')"
    and norm: "normalize_x0 x0 = Inr X0" and k: "X0 \<noteq> []" and y0: "y0 \<noteq> PNone"
  shows "\<exists>X_left. res_x_iters res = X0 @ X_left \<and> nat N \<le> length X_left
           \<and> calls (events w') = calls (events w) @ take (nat N) X_left
           \<and> length (calls (events w')) = length (calls (events w)) + nat N"
proof -
  from dummy_minimize_Inr [OF run] norm obtain space Y0 n w1 X_left w2 y_left where
    iv: "initial_values func X0 y0 N w = (Inr (Y0, n), w1)"
    and dr: "rvs_call ext space n (check_random_state ext rs) w1 = (Inr X_left, w2)"
    and fr: "fresh_values func X_left Y0 n w2 = (Inr y_left, w')"
    and as: "assemble space (X0 @ X_left) (Y0 @ y_left) = Inr res"
    by auto
  from initial_values_supplied [OF iv k y0] k have n: "n = N" and w1: "w1 = w"
    and Y0: "Y0 \<noteq> []" by auto
  from fresh_values_after_initial [OF fr Y0] n have le: "nat N \<le> length X_left"
    and ev: "eval_all func (take (nat N) X_left) w2 = (Inr y_left, w')" by simp_all
  from eval_all_Inr [OF ev] rvs_call_events [OF dr] w1
  have c: "calls (events w') = calls (events w) @ take (nat N) X_left"
    by (simp add: calls_append calls_map_Call)
  from c le have "length (calls (events w')) = length (calls (events w)) + nat N" by simp
  moreover from assemble_Inr [OF as] have "res_x_iters res = X0 @ X_left" by auto
  ultimately show ?thesis using le c by blast
qed

text \<open>With two supplied values and budget 5 the run completes after five
  calls of the objective.\<close>

theorem supplied_values_call_count_witness:
  "\<exists>res w'. dummy_minimize example_collaborators example_objective () 5
       (PList [PList [Num (Fin 1)], PList [Num (Fin 9)]]) (PList [Num (Fin 4), Num (Fin 36)]) (RS_Int 0) example_world
         = (Inr res, w')
     \<and> PList [Num (Fin 4), Num (Fin 36)] \<noteq> PNone
     \<and> length (calls (events w')) = length (calls (events example_world)) + nat 5"
proof -
  have norm: "normalize_x0 (PList [PList [Num (Fin 1)], PList [Num (Fin 9)]])
                = Inr [PList [Num (Fin 1)], PList [Num (Fin 9)]]"
    by (simp add: normalize_x0_def)
  from supplied_values_call_count [OF run_supplied norm]
  have "length (calls (events \<lparr>func_state = 5::nat, global_rng = 7::nat,
         events =
           [Sample 5 0, Call (PList [Num (Fin 0)]), Call (PList [Num (Fin 1)]),
            Call (PList [Num (Fin 2)]), Call (PList [Num (Fin 3)]), Call (PList [Num (Fin 4)])]\<rparr>))
        = length (calls (events example_world)) + nat 5"
    by simp
  with run_supplied show ?thesis by simp
qed

text \<open>C2 as stated fails on the scenario of the specification: five calls,
  not three.\<close>

theorem call_count_counterexample:
  "events example_world = []
   \<and> length (calls (events (snd (dummy_minimize example_collaborators example_objective () 5
       (PList [PList [Num (Fin 1)], PList [Num (Fin 9)]]) (PList [Num (Fin 4), Num (Fin 36)]) (RS_Int 0)
       example_world)))) = 5
   \<and> (5::int) \<noteq> 5 - 2"
  by (simp add: run_supplied) (simp add: example_world_def)

text \<open>
  C3, as amended.  In a completed run whose values are all numbers (none is
  NaN), \<^verbatim>\<open>res.fun\<close> is the minimum of \<^verbatim>\<open>func_vals\<close>, and \<^verbatim>\<open>res.x\<close> is
  the entry of \<^verbatim>\<open>x_iters\<close> at the lowest index whose value is that minimum.
  In a completed run with a NaN among the values, \<^verbatim>\<open>res.fun\<close> is NaN and
  \<^verbatim>\<open>res.x\<close> is the entry of \<^verbatim>\<open>x_iters\<close> at the index of the first NaN.
\<close>

theorem best_is_first_minimum:
  assumes "dummy_minimize ext func d N x0 y0 rs w = (Inr res, w')"
  shows "(\<forall>vs. res_func_vals res = map Fin vs \<longrightarrow>
            res_fun res = Fin (Min (set vs))
          \<and> (\<exists>best. best < length vs \<and> best < length (res_x_iters res)
                \<and> res_x res = res_x_iters res ! best
                \<and> vs ! best = Min (set vs)
                \<and> (\<forall>j<best. vs ! j \<noteq> Min (set vs))))
       \<and> (\<forall>vs zs. res_func_vals res = map Fin vs @ NaN # zs \<longrightarrow>
            res_fun res = NaN \<and> length vs < length (res_x_iters res)
          \<and> res_x res = res_x_iters res ! length vs)"
proof (intro conjI allI impI)
  from dummy_minimize_Inr [OF assms] obtain space X y where
    "assemble space X y = Inr res" by blast
  from assemble_Inr [OF this] obtain best where
    a: "np_argmin (res_func_vals res) = Inr best" and bX: "best < length X"
    and x: "res_x res = X ! best" and f: "res_fun res = res_func_vals res ! best"
    and X: "res_x_iters res = X" by blast
  {
    fix vs
    assume vs: "res_func_vals res = map Fin vs"
    from a have a': "np_argmin (map Fin vs) = Inr best" unfolding vs .
    note m = np_argmin_Min [OF a']
    from np_argmin_spec [OF a'] have len: "best < length vs"
      and first: "\<forall>j<best. vs ! best < vs ! j" by simp_all
    from first m have none: "\<forall>j<best. vs ! j \<noteq> Min (set vs)" by auto
    from f vs len m show "res_fun res = Fin (Min (set vs))" by simp
    from m len bX x X none
    show "\<exists>best. best < length vs \<and> best < length (res_x_iters res)
            \<and> res_x res = res_x_iters res ! best
            \<and> vs ! best = Min (set vs)
            \<and> (\<forall>j<best. vs ! j \<noteq> Min (set vs))"
      by auto
  }
  {
    fix vs zs
    assume vs: "res_func_vals res = map Fin vs @ NaN # zs"
    from a have "best = length vs" unfolding vs np_argmin_NaN by simp
    with f vs bX x X
    show "res_fun res = NaN" and "length vs < length (res_x_iters res)"
      and "res_x res = res_x_iters res ! length vs"
      by (simp_all add: nth_append)
  }
qed

text \<open>Two initial points with the same value 1, which is the minimum: the
  first of them is reported.  Three initial points with the supplied values
  1, NaN and 0.5: the second is reported.\<close>

theorem best_is_first_minimum_witness:
  "(\<exists>res w'. dummy_minimize example_collaborators example_objective () 4
       (PList [PList [Num (Fin 2)], PList [Num (Fin 4)]]) PNone (RS_Int 0) example_world
         = (Inr res, w')
     \<and> res_func_vals res = map Fin [1, 1, 9, 4]
     \<and> res_fun res = Fin (Min (set [1, 1, 9, 4]))
     \<and> res_x res = res_x_iters res ! 0)
   \<and> (\<exists>res w'. dummy_minimize example_collaborators example_objective () 2
       (PList [PList [Num (Fin 1)], PList [Num (Fin 2)], PList [Num (Fin 3)]])
       (PList [Num (Fin 1), Num NaN, Num (Fin (1 / 2))]) (RS_Int 0) example_world
         = (Inr res, w')
     \<and> res_func_vals res = map Fin [1] @ NaN # [Fin (1 / 2), Fin 9, Fin 4]
     \<and> res_fun res = NaN
     \<and> res_x res = res_x_iters res ! length [1 :: real])"
proof -
  have v1: "res_func_vals \<lparr>res_x = PList [Num (Fin 2)], res_fun = Fin 1,
         res_func_vals = [Fin 1, Fin 1, Fin 9, Fin 4],
         res_x_iters = [PList [Num (Fin 2)], PList [Num (Fin 4)], PList [Num (Fin 0)],
            PList [Num (Fin 1)]],
         res_space = (), res_models = []\<rparr> = map Fin [1, 1, 9, 4]"
    by simp
  from best_is_first_minimum [OF run_ties, THEN conjunct1, rule_format, OF v1]
  have 1: "\<exists>res w'. dummy_minimize example_collaborators example_objective () 4
       (PList [PList [Num (Fin 2)], PList [Num (Fin 4)]]) PNone (RS_Int 0) example_world
         = (Inr res, w')
     \<and> res_func_vals res = map Fin [1, 1, 9, 4]
     \<and> res_fun res = Fin (Min (set [1, 1, 9, 4]))
     \<and> res_x res = res_x_iters res ! 0"
    using run_ties by simp
  have v2: "res_func_vals \<lparr>res_x = PList [Num (Fin 2)], res_fun = NaN,
         res_func_vals = [Fin 1, NaN, Fin (1 / 2), Fin 9, Fin 4],
         res_x_iters =
           [PList [Num (Fin 1)], PList [Num (Fin 2)], PList [Num (Fin 3)],
            PList [Num (Fin 0)], PList [Num (Fin 1)]],
         res_space = (), res_models = []\<rparr>
       = map Fin [1] @ NaN # [Fin (1 / 2), Fin 9, Fin 4]"
    by simp
  from best_is_first_minimum [OF run_nan, THEN conjunct2, rule_format, OF v2]
  have 2: "\<exists>res w'. dummy_minimize example_collaborators example_objective () 2
       (PList [PList [Num (Fin 1)], PList [Num (Fin 2)], PList [Num (Fin 3)]])
       (PList [Num (Fin 1), Num NaN, Num (Fin (1 / 2))]) (RS_Int 0) example_world
         = (Inr res, w')
     \<and> res_func_vals res = map Fin [1] @ NaN # [Fin (1 / 2), Fin 9, Fin 4]
     \<and> res_fun res = NaN
     \<and> res_x res = res_x_iters res ! length [1 :: real]"
    using run_nan by simp
  from 1 2 show ?thesis by (rule conjI)
qed

text \<open>C3 as stated fails: with the supplied values 1, NaN and 0.5 the run
  completes and reports NaN at the second point, although 0.5, at the third
  point, is the least of the values.\<close>

theorem best_value_counterexample:
  "\<exists>res w'. dummy_minimize example_collaborators example_objective () 2
       (PList [PList [Num (Fin 1)], PList [Num (Fin 2)], PList [Num (Fin 3)]])
       (PList [Num (Fin 1), Num NaN, Num (Fin (1 / 2))]) (RS_Int 0) example_world
         = (Inr res, w')
     \<and> res_func_vals res = [Fin 1, NaN, Fin (1 / 2), Fin 9, Fin 4]
     \<and> res_x_iters res =
           [PList [Num (Fin 1)], PList [Num (Fin 2)], PList [Num (Fin 3)],
            PList [Num (Fin 0)], PList [Num (Fin 1)]]
     \<and> res_fun res = NaN \<and> res_fun res \<noteq> Fin (1 / 2)
     \<and> res_x res = PList [Num (Fin 2)] \<and> res_x res \<noteq> res_x_iters res ! 2"
  using run_nan by simp

text \<open>
  C4.  With an integer seed the run does not read and does not change the
  global generator: in two worlds that differ in nothing else, the outcome,
  the state of the objective and the event log are the same.  A completed
  run has called the sampler once, for all the remaining samples, with the
  generator made from the seed, and the points it returns are those of that
  one call.
\<close>

theorem seeded_run_deterministic:
  "dummy_minimize ext func d N x0 y0 (RS_Int seed) (w\<lparr>global_rng := g\<rparr>) =
     (case dummy_minimize ext func d N x0 y0 (RS_Int seed) w of
        (r, w') \<Rightarrow> (r, w'\<lparr>global_rng := g\<rparr>))
   \<and> (\<forall>res w'. dummy_minimize ext func d N x0 y0 (RS_Int seed) w = (Inr res, w') \<longrightarrow>
         (\<exists>space X0 X_left g'.
             Space ext d = Inr space \<and> normalize_x0 x0 = Inr X0
           \<and> rvs ext space (remaining_calls N X0 y0) (RandomState ext seed) = (Inr X_left, g')
           \<and> res_x_iters res = X0 @ X_left
           \<and> samples (events w') =
               samples (events w) @ [(remaining_calls N X0 y0, RandomState ext seed)]))"
proof (intro conjI allI impI)
  show "dummy_minimize ext func d N x0 y0 (RS_Int seed) (w\<lparr>global_rng := g\<rparr>) =
     (case dummy_minimize ext func d N x0 y0 (RS_Int seed) w of
        (r, w') \<Rightarrow> (r, w'\<lparr>global_rng := g\<rparr>))"
    by (rule dummy_minimize_seeded_rng)
next
  fix res w'
  assume run: "dummy_minimize ext func d N x0 y0 (RS_Int seed) w = (Inr res, w')"
  let ?r = "check_random_state ext (RS_Int seed)"
  have r: "?r = Local (RandomState ext seed)" by (simp add: check_random_state_def)
  from dummy_minimize_Inr [OF run] obtain space X0 Y0 n w1 X_left w2 y_left where
    sp: "Space ext d = Inr space" and norm: "normalize_x0 x0 = Inr X0"
    and iv: "initial_values func X0 y0 N w = (Inr (Y0, n), w1)"
    and dr: "rvs_call ext space n ?r w1 = (Inr X_left, w2)"
    and as: "assemble space (X0 @ X_left) (Y0 @ y_left) = Inr res"
    by blast
  note n = initial_values_remaining [OF iv]
  from rvs_call_Inr [OF dr] obtain g' where
    "rvs ext space (remaining_calls N X0 y0) (RandomState ext seed) = (Inr X_left, g')"
    by (auto simp: r drawn_from_def n)
  moreover from assemble_Inr [OF as] have "res_x_iters res = X0 @ X_left" by auto
  moreover from dummy_minimize_samples [OF sp norm iv, of "RS_Int seed"] run
  have "samples (events w') =
          samples (events w) @ [(remaining_calls N X0 y0, RandomState ext seed)]"
    by (simp add: r drawn_from_def n)
  ultimately show "\<exists>space X0 X_left g'.
             Space ext d = Inr space \<and> normalize_x0 x0 = Inr X0
           \<and> rvs ext space (remaining_calls N X0 y0) (RandomState ext seed) = (Inr X_left, g')
           \<and> res_x_iters res = X0 @ X_left
           \<and> samples (events w') =
               samples (events w) @ [(remaining_calls N X0 y0, RandomState ext seed)]"
    using sp norm by blast
qed

text \<open>The seeded run with two initial points, in a world whose global
  generator is in another state: the same result, one draw of three samples
  from the generator made from the seed.\<close>

theorem seeded_run_deterministic_witness:
  "dummy_minimize example_collaborators example_objective () 5
       (PList [PList [Num (Fin 1)], PList [Num (Fin 9)]]) PNone (RS_Int 0) (example_world\<lparr>global_rng := 11\<rparr>)
     = (Inr \<lparr>res_x = PList [Num (Fin 2)], res_fun = Fin 1, res_func_vals = [Fin 4, Fin 36, Fin 9, Fin 4, Fin 1],
         res_x_iters =
           [PList [Num (Fin 1)], PList [Num (Fin 9)], PList [Num (Fin 0)], PList [Num (Fin 1)], PList [Num (Fin 2)]],
         res_space = (), res_models = []\<rparr>,
      \<lparr>func_state = 5, global_rng = 11,
         events =
           [Call (PList [Num (Fin 1)]), Call (PList [Num (Fin 9)]), Sample 3 0,
            Call (PList [Num (Fin 0)]), Call (PList [Num (Fin 1)]), Call (PList [Num (Fin 2)])]\<rparr>)
   \<and> samples (events (snd (dummy_minimize example_collaborators example_objective () 5
       (PList [PList [Num (Fin 1)], PList [Num (Fin 9)]]) PNone (RS_Int 0) example_world)))
     = [(3, RandomState example_collaborators 0)]"
proof -
  note d = seeded_run_deterministic [where ext = example_collaborators
      and func = example_objective and d = "()" and N = 5
      and ?x0.0 = "PList [PList [Num (Fin 1)], PList [Num (Fin 9)]]" and ?y0.0 = PNone and seed = 0
      and w = example_world and g = 11]
  from d have "dummy_minimize example_collaborators example_objective () 5
       (PList [PList [Num (Fin 1)], PList [Num (Fin 9)]]) PNone (RS_Int 0) (example_world\<lparr>global_rng := 11\<rparr>)
     = (case dummy_minimize example_collaborators example_objective () 5
       (PList [PList [Num (Fin 1)], PList [Num (Fin 9)]]) PNone (RS_Int 0) example_world of
        (r, w') \<Rightarrow> (r, w'\<lparr>global_rng := 11\<rparr>))" by (rule conjunct1)
  then have first: "dummy_minimize example_collaborators example_objective () 5
       (PList [PList [Num (Fin 1)], PList [Num (Fin 9)]]) PNone (RS_Int 0) (example_world\<lparr>global_rng := 11\<rparr>)
     = (Inr \<lparr>res_x = PList [Num (Fin 2)], res_fun = Fin 1, res_func_vals = [Fin 4, Fin 36, Fin 9, Fin 4, Fin 1],
         res_x_iters =
           [PList [Num (Fin 1)], PList [Num (Fin 9)], PList [Num (Fin 0)], PList [Num (Fin 1)], PList [Num (Fin 2)]],
         res_space = (), res_models = []\<rparr>,
      \<lparr>func_state = 5, global_rng = 11,
         events =
           [Call (PList [Num (Fin 1)]), Call (PList [Num (Fin 9)]), Sample 3 0,
            Call (PList [Num (Fin 0)]), Call (PList [Num (Fin 1)]), Call (PList [Num (Fin 2)])]\<rparr>)"
    by (simp add: run_computed)
  from d [THEN conjunct2, rule_format, OF run_computed] obtain X0 where
    X0: "normalize_x0 (PList [PList [Num (Fin 1)], PList [Num (Fin 9)]]) = Inr X0"
    and s: "samples (events \<lparr>func_state = 5::nat, global_rng = 7::nat,
         events =
           [Call (PList [Num (Fin 1)]), Call (PList [Num (Fin 9)]), Sample 3 0,
            Call (PList [Num (Fin 0)]), Call (PList [Num (Fin 1)]), Call (PList [Num (Fin 2)])]\<rparr>) =
         samples (events example_world)
           @ [(remaining_calls 5 X0 PNone, RandomState example_collaborators 0)]"
    by blast
  have ew: "events example_world = []" by (simp add: example_world_def)
  from X0 have "X0 = [PList [Num (Fin 1)], PList [Num (Fin 9)]]" by (simp add: normalize_x0_def)
  with s have "samples (events (snd (dummy_minimize example_collaborators example_objective () 5
       (PList [PList [Num (Fin 1)], PList [Num (Fin 9)]]) PNone (RS_Int 0) example_world)))
     = [(3, RandomState example_collaborators 0)]"
    by (simp add: run_computed remaining_calls_def ew)
  with first show ?thesis by simp
qed

text \<open>
  C5 fails where the initial values are supplied: the first call of the
  objective is then the one at the first sampled point, and nothing checks
  what it returns.  Where the initial values are computed, and where there
  are no initial points, the first call is checked and a value that is not a
  scalar ends the run before a second call.
\<close>

lemma first_evaluation_checked_initial:
  assumes "Space ext d = Inr space" and "normalize_x0 x0 = Inr (p # ps)"
    and "call func p w = (Inr v, w1)" and "\<not> np_isscalar v"
  shows "dummy_minimize ext func d N x0 PNone rs w = (Inl (ValueError Should_return_scalar), w1)
       \<and> events w1 = events w @ [Call p]"
  using assms call_world(1) [OF assms(3)]
  by (simp add: dummy_minimize_unfold initial_values_def)

lemma first_evaluation_checked_fresh:
  assumes "Space ext d = Inr space"
    and "rvs_call ext space N (check_random_state ext rs) w = (Inr (p # ps), w1)"
    and "call func p w1 = (Inr v, w2)" and "\<not> np_isscalar v"
  shows "dummy_minimize ext func d N PNone y0 rs w = (Inl (ValueError Should_return_scalar), w2)
       \<and> events w2 = events w1 @ [Call p]"
  using assms call_world(1) [OF assms(3)]
  by (simp add: dummy_minimize_unfold normalize_x0_def initial_values_none fresh_values_def)

text \<open>C5 at a failing input: one initial point with its value supplied,
  budget 2, and an objective that returns a list.  The objective is called
  at both sampled points and the run does not end with the error of the
  scalar check.\<close>

theorem first_evaluation_unchecked_after_supplied_values:
  "calls (events (snd (dummy_minimize example_collaborators vector_objective () 2
       (PList [PList [Num (Fin 1)]]) (PList [Num (Fin 4)]) (RS_Int 0) example_world)))
     = [PList [Num (Fin 0)], PList [Num (Fin 1)]]
   \<and> fst (dummy_minimize example_collaborators vector_objective () 2
       (PList [PList [Num (Fin 1)]]) (PList [Num (Fin 4)]) (RS_Int 0) example_world)
     \<noteq> Inl (ValueError Should_return_scalar)
   \<and> fst (vector_objective (PList [Num (Fin 0)]) 0) = Inr (PList [Num (Fin 1)])
   \<and> \<not> np_isscalar (PList [Num (Fin 1)])"
  by (simp add: run_simps vector_objective_def eval_nat_numeral upt_rec)

text \<open>
  C6.  Let \<^verbatim>\<open>x0\<close> be at least one point and \<^verbatim>\<open>y0\<close> not \<^verbatim>\<open>None\<close>.
  The checks of \<^verbatim>\<open>y0\<close> are made in this order, and each failure leaves the
  world as it was (no call of the objective, no draw): a \<^verbatim>\<open>y0\<close> that is
  neither iterable nor a number is an invalid argument; a \<^verbatim>\<open>y0\<close> whose
  list (a number is wrapped into a one-element list) differs in length from
  \<^verbatim>\<open>x0\<close> is an invalid argument; a \<^verbatim>\<open>y0\<close> of the right length with an
  element that is not a scalar is an invalid return of the objective.
\<close>

theorem supplied_values_validation:
  assumes sp: "Space ext d = Inr space" and norm: "normalize_x0 x0 = Inr X0"
    and k: "X0 \<noteq> []" and y0: "y0 \<noteq> PNone"
  shows "(\<not> isinstance_Iterable y0 \<and> \<not> isinstance_Number y0 \<longrightarrow>
            dummy_minimize ext func d N x0 y0 rs w
              = (Inl (ValueError Expected_y0_iterable_or_scalar), w))
       \<and> (\<forall>Y0. y0_list y0 = Inr Y0 \<and> length Y0 \<noteq> length X0 \<longrightarrow>
            dummy_minimize ext func d N x0 y0 rs w = (Inl (ValueError Same_length), w))
       \<and> (\<forall>Y0. y0_list y0 = Inr Y0 \<and> length Y0 = length X0 \<and> (\<exists>v\<in>set Y0. \<not> np_isscalar v) \<longrightarrow>
            dummy_minimize ext func d N x0 y0 rs w = (Inl (ValueError Elements_scalars), w))
       \<and> kind_of (ValueError Expected_y0_iterable_or_scalar) = Some InvalidArgument
       \<and> kind_of (ValueError Same_length) = Some InvalidArgument
       \<and> kind_of (ValueError Elements_scalars) = Some InvalidObjectiveReturn"
proof -
  have a: "dummy_minimize ext func d N x0 y0 rs w
             = (Inl (ValueError Expected_y0_iterable_or_scalar), w)"
    if "\<not> isinstance_Iterable y0 \<and> \<not> isinstance_Number y0"
  proof -
    from that k y0 have "initial_values func X0 y0 N w
        = (Inl (ValueError Expected_y0_iterable_or_scalar), w)"
      by (simp add: initial_values_def y0_list_def)
    from dummy_minimize_initial_error [OF sp norm this] show ?thesis .
  qed
  have b: "dummy_minimize ext func d N x0 y0 rs w = (Inl (ValueError Same_length), w)"
    if "y0_list y0 = Inr Y0 \<and> length Y0 \<noteq> length X0" for Y0
  proof -
    from that k y0 have "initial_values func X0 y0 N w = (Inl (ValueError Same_length), w)"
      by (auto simp: initial_values_def)
    from dummy_minimize_initial_error [OF sp norm this] show ?thesis .
  qed
  have c: "dummy_minimize ext func d N x0 y0 rs w = (Inl (ValueError Elements_scalars), w)"
    if "y0_list y0 = Inr Y0 \<and> length Y0 = length X0 \<and> (\<exists>v\<in>set Y0. \<not> np_isscalar v)" for Y0
  proof -
    from that have "\<not> list_all np_isscalar Y0" by (auto simp: list_all_iff)
    with that k y0 have "initial_values func X0 y0 N w = (Inl (ValueError Elements_scalars), w)"
      by (auto simp: initial_values_def)
    from dummy_minimize_initial_error [OF sp norm this] show ?thesis .
  qed
  from a b c show ?thesis by (intro conjI allI impI) simp_all
qed

theorem supplied_values_validation_witness:
  "dummy_minimize example_collaborators example_objective () 5
       (PList [PList [Num (Fin 1)], PList [Num (Fin 9)]]) (Obj 0) (RS_Int 0) example_world
     = (Inl (ValueError Expected_y0_iterable_or_scalar), example_world)
   \<and> dummy_minimize example_collaborators example_objective () 5
       (PList [PList [Num (Fin 1)], PList [Num (Fin 9)]]) (Num (Fin 4)) (RS_Int 0) example_world
     = (Inl (ValueError Same_length), example_world)
   \<and> dummy_minimize example_collaborators example_objective () 5
       (PList [PList [Num (Fin 1)], PList [Num (Fin 9)]]) (PList [Num (Fin 4), PList [Num (Fin 36)]]) (RS_Int 0)
       example_world
     = (Inl (ValueError Elements_scalars), example_world)"
proof -
  have sp: "Space example_collaborators () = Inr ()" by (simp add: example_collaborators_def)
  have norm: "normalize_x0 (PList [PList [Num (Fin 1)], PList [Num (Fin 9)]])
                = Inr [PList [Num (Fin 1)], PList [Num (Fin 9)]]"
    by (simp add: normalize_x0_def)
  have k: "[PList [Num (Fin 1)], PList [Num (Fin 9)]] \<noteq> []" by simp
  note v = supplied_values_validation [OF sp norm k, where func = example_objective
      and N = 5 and rs = "RS_Int 0" and w = example_world]
  have 1: "Obj 0 \<noteq> PNone" and 2: "Num (Fin 4) \<noteq> PNone" and 3: "PList [Num (Fin 4), PList [Num (Fin 36)]] \<noteq> PNone"
    by simp_all
  from v [OF 1] have "dummy_minimize example_collaborators example_objective () 5
       (PList [PList [Num (Fin 1)], PList [Num (Fin 9)]]) (Obj 0) (RS_Int 0) example_world
     = (Inl (ValueError Expected_y0_iterable_or_scalar), example_world)" by simp
  moreover from v [OF 2] have "dummy_minimize example_collaborators example_objective () 5
       (PList [PList [Num (Fin 1)], PList [Num (Fin 9)]]) (Num (Fin 4)) (RS_Int 0) example_world
     = (Inl (ValueError Same_length), example_world)" by (simp add: y0_list_def)
  moreover from v [OF 3] have "dummy_minimize example_collaborators example_objective () 5
       (PList [PList [Num (Fin 1)], PList [Num (Fin 9)]]) (PList [Num (Fin 4), PList [Num (Fin 36)]]) (RS_Int 0)
       example_world
     = (Inl (ValueError Elements_scalars), example_world)" by (simp add: y0_list_def)
  ultimately show ?thesis by simp
qed

text \<open>
  C7 holds for lists: a list whose first element is a list is taken as it
  is, and a list whose first element is not a list is wrapped, so that it
  behaves as the wrapped list does.
\<close>

lemma normalize_x0_list_of_lists:
  "normalize_x0 (PList (PList p # ps)) = Inr (PList p # ps)"
  by (simp add: normalize_x0_def)

lemma normalize_x0_flat_point:
  assumes "\<not> isinstance_list v"
  shows "normalize_x0 (PList (v # vs)) = Inr [PList (v # vs)]"
    and "normalize_x0 (PList (v # vs)) = normalize_x0 (PList [PList (v # vs)])"
  using assms by (simp_all add: normalize_x0_def)

lemma dummy_minimize_flat_point:
  assumes "\<not> isinstance_list v"
  shows "dummy_minimize ext func d N (PList (v # vs)) y0 rs w
           = dummy_minimize ext func d N (PList [PList (v # vs)]) y0 rs w"
  using assms by (cases "Space ext d") (simp_all add: dummy_minimize_unfold normalize_x0_def)

text \<open>C7 at failing inputs: a number raises \<^verbatim>\<open>TypeError\<close> when its first
  item is read; a string and a tuple of numbers are wrapped and accepted as
  one point.  Only a value that is not a list and whose first item is a
  list reaches the check of line 79.\<close>

theorem non_list_x0_not_rejected:
  "dummy_minimize example_collaborators example_objective () 3 (Num (Fin 5)) PNone (RS_Int 0)
     example_world = (Inl TypeError, example_world)
   \<and> normalize_x0 (Num (Fin 5)) = Inl TypeError
   \<and> normalize_x0 (Str ''ab'') = Inr [Str ''ab'']
   \<and> normalize_x0 (PTuple [Num (Fin 1), Num (Fin 2)]) = Inr [PTuple [Num (Fin 1), Num (Fin 2)]]
   \<and> normalize_x0 (PTuple [PList [Num (Fin 1)], PList [Num (Fin 2)]]) = Inl (ValueError Expected_x0_list)"
  by (simp add: dummy_minimize_unfold normalize_x0_def example_collaborators_def)



text \<open>
  C9.  With the empty list as \<^verbatim>\<open>x0\<close> the run ends with \<^verbatim>\<open>IndexError\<close>
  before anything else happens, once the space is built.  With \<^verbatim>\<open>None\<close>
  there are no initial points and the run goes on to draw \<open>N\<close> samples.
\<close>

theorem empty_list_x0_index_error:
  assumes sp: "Space ext d = Inr space"
  shows "dummy_minimize ext func d N (PList []) y0 rs w = (Inl IndexError, w)
       \<and> normalize_x0 PNone = Inr []
       \<and> samples (events (snd (dummy_minimize ext func d N PNone y0 rs w))) =
           samples (events w) @ [(N, drawn_from (check_random_state ext rs) w)]
       \<and> dummy_minimize ext func d N PNone y0 rs w
           \<noteq> dummy_minimize ext func d N (PList []) y0 rs w"
proof -
  have e: "dummy_minimize ext func d N (PList []) y0 rs w = (Inl IndexError, w)"
    using sp by (simp add: dummy_minimize_unfold normalize_x0_def)
  have norm: "normalize_x0 PNone = Inr []" by (simp add: normalize_x0_def)
  note s = dummy_minimize_samples [OF sp norm initial_values_none,
      where func = func and ?y0.0 = y0 and N = N and w = w and rs = rs]
  have "dummy_minimize ext func d N PNone y0 rs w \<noteq> (Inl IndexError, w)"
  proof
    assume "dummy_minimize ext func d N PNone y0 rs w = (Inl IndexError, w)"
    with s show False by simp
  qed
  with e norm s show ?thesis by simp
qed

theorem empty_list_x0_index_error_witness:
  "dummy_minimize example_collaborators example_objective () 3 (PList []) PNone (RS_Int 0)
     example_world = (Inl IndexError, example_world)
   \<and> (\<exists>res w'. dummy_minimize example_collaborators example_objective () 3 PNone PNone
         (RS_Int 0) example_world = (Inr res, w'))"
proof -
  have sp: "Space example_collaborators () = Inr ()" by (simp add: example_collaborators_def)
  from empty_list_x0_index_error [OF sp, where func = example_objective and N = 3
      and ?y0.0 = PNone and rs = "RS_Int 0" and w = example_world]
  have "dummy_minimize example_collaborators example_objective () 3 (PList []) PNone (RS_Int 0)
     example_world = (Inl IndexError, example_world)" by (rule conjunct1)
  with run_plain show ?thesis by simp
qed

text \<open>
  C10.  With \<^verbatim>\<open>None\<close> as \<^verbatim>\<open>x0\<close>, a run with any \<^verbatim>\<open>y0\<close> is the run
  with \<^verbatim>\<open>None\<close> as \<^verbatim>\<open>y0\<close>.  If it completes with a budget \<open>N \<ge> 1\<close>,
  its points are the sampled points and its values are the values of the
  objective at the first \<open>N\<close> of them.
\<close>

theorem values_without_points_ignored:
  "dummy_minimize ext func d N PNone y0 rs w = dummy_minimize ext func d N PNone PNone rs w
   \<and> (\<forall>res w'. dummy_minimize ext func d N PNone y0 rs w = (Inr res, w') \<and> 1 \<le> N \<longrightarrow>
         (\<exists>space X_left w2.
             Space ext d = Inr space
           \<and> rvs_call ext space N (check_random_state ext rs) w = (Inr X_left, w2)
           \<and> nat N \<le> length X_left
           \<and> res_x_iters res = X_left
           \<and> eval_all func (take (nat N) X_left) w2 = (Inr (map Num (res_func_vals res)), w')
           \<and> length (res_func_vals res) = nat N))"
proof (intro conjI allI impI)
  show "dummy_minimize ext func d N PNone y0 rs w = dummy_minimize ext func d N PNone PNone rs w"
    by (cases "Space ext d") (simp_all add: dummy_minimize_unfold normalize_x0_def initial_values_none)
next
  fix res w'
  assume a: "dummy_minimize ext func d N PNone y0 rs w = (Inr res, w') \<and> 1 \<le> N"
  then have run: "dummy_minimize ext func d N PNone y0 rs w = (Inr res, w')" and N: "1 \<le> N"
    by simp_all
  have m: "max 1 (nat N) = nat N" using N by simp
  from dummy_minimize_Inr [OF run] obtain space n w1 X_left w2 y_left Y0 where
    sp: "Space ext d = Inr space"
    and iv: "initial_values func [] y0 N w = (Inr (Y0, n), w1)"
    and dr: "rvs_call ext space n (check_random_state ext rs) w1 = (Inr X_left, w2)"
    and fr: "fresh_values func X_left Y0 n w2 = (Inr y_left, w')"
    and as: "assemble space ([] @ X_left) (Y0 @ y_left) = Inr res"
    by (auto simp: normalize_x0_def)
  from iv have Y0: "Y0 = []" and n: "n = N" and w1: "w1 = w"
    by (simp_all add: initial_values_none)
  from fresh_values_no_initial [OF fr [unfolded Y0 n]] m
  have le: "nat N \<le> length X_left"
    and ev: "eval_all func (take (nat N) X_left) w2 = (Inr y_left, w')"
    and len: "length y_left = nat N" by simp_all
  from assemble_Inr [OF as] Y0 have X: "res_x_iters res = X_left"
    and y: "y_left = map Num (res_func_vals res)" by auto
  from len y have "length (res_func_vals res) = nat N" by simp
  with sp dr le X ev y n w1
  show "\<exists>space X_left w2.
             Space ext d = Inr space
           \<and> rvs_call ext space N (check_random_state ext rs) w = (Inr X_left, w2)
           \<and> nat N \<le> length X_left
           \<and> res_x_iters res = X_left
           \<and> eval_all func (take (nat N) X_left) w2 = (Inr (map Num (res_func_vals res)), w')
           \<and> length (res_func_vals res) = nat N"
    by auto
qed

theorem values_without_points_ignored_witness:
  "dummy_minimize example_collaborators example_objective () 3 PNone (PList [Num (Fin 4), Num (Fin 36)])
     (RS_Int 0) example_world
   = (Inr \<lparr>res_x = PList [Num (Fin 2)], res_fun = Fin 1, res_func_vals = [Fin 9, Fin 4, Fin 1],
         res_x_iters = [PList [Num (Fin 0)], PList [Num (Fin 1)], PList [Num (Fin 2)]],
         res_space = (), res_models = []\<rparr>,
      \<lparr>func_state = 3, global_rng = 7,
         events =
           [Sample 3 0, Call (PList [Num (Fin 0)]), Call (PList [Num (Fin 1)]), Call (PList [Num (Fin 2)])]\<rparr>)
   \<and> (1::int) \<le> 3"
  using values_without_points_ignored [where ext = example_collaborators
      and func = example_objective and d = "()" and N = 3 and ?y0.0 = "PList [Num (Fin 4), Num (Fin 36)]"
      and rs = "RS_Int 0" and w = example_world, THEN conjunct1]
  by (simp add: run_plain)

end
